theory Spec2Isabelle
  imports Main "HOL-Library.Word"
begin

section \<open>The Failover land of the Memory Pool System (failover.c)\<close>

text \<open>
  A Failover is a Land built from two child Lands, a primary and a secondary. Every
  method of failover.c delegates to the children through the generic Land entry points
  (\<open>LandInsert\<close>, \<open>LandDelete\<close>, \<open>LandFlush\<close>, ...). The children are reached through their
  class (a table of methods), so the model takes the two method tables and \<open>LandFlush\<close>
  as parameters and threads the state of each child explicitly.

  Conventions of the embedding:
  \<^item> addresses and sizes are machine words of the platform's width \<open>'w\<close>;
  \<^item> an out-parameter of a C function is a component of the returned tuple, holding the
    contents of the parameter after the call;
  \<^item> a failed \<open>AVER\<close> stops the operation: the result is \<open>None\<close>. \<open>AVER_CRITICAL\<close> is the
    check used on the critical path (\<open>.critical\<close> in failover.c); the macros are not part
    of the sources, and whether the critical checks are compiled in is the build
    parameter \<open>critical\<close>. Checks on pointers (\<open>rangeReturn != NULL\<close>,
    \<open>rangeReturn != rangeIO\<close>, \<open>visitor != NULL\<close>) and on the class of an instance
    (\<open>MustBeA\<close>) hold by typing and have no counterpart.
\<close>

subsection \<open>Result codes and ranges\<close>

text \<open>
  Modelled from the spec: the result codes (mpmtypes.h is not part of the sources). The
  spec's error taxonomy is \<open>OK\<close>, \<open>FAIL\<close>, \<open>ALLOC_FAILURE\<close>, \<open>PARAM\<close>; failover.c also
  names \<open>ResLIMIT\<close>, which is not an allocation failure.
\<close>

datatype res = ResOK | ResFAIL | ResALLOC_FAILURE | ResLIMIT | ResPARAM

definition ResIsAllocFailure :: "res \<Rightarrow> bool" where
  "ResIsAllocFailure r = (r = ResALLOC_FAILURE)"

text \<open>
  Modelled from the spec: ranges (range.h and range.c are not part of the sources). A range
  is a half-open interval \<open>[base, limit)\<close> with \<open>base \<le> limit\<close>, empty iff
  \<open>base = limit\<close>. \<open>RangeCheck\<close> is what \<open>AVERT(Range, range)\<close> checks; \<open>RangeInit\<close> builds a
  range from its two ends.
\<close>

record (overloaded) 'w range =
  base :: "'w word"
  limit :: "'w word"

definition RangeInit :: "'w::len word \<Rightarrow> 'w word \<Rightarrow> 'w range" where
  "RangeInit b l = \<lparr>base = b, limit = l\<rparr>"

definition RangeBase :: "'w::len range \<Rightarrow> 'w word" where
  "RangeBase r = base r"

definition RangeLimit :: "'w::len range \<Rightarrow> 'w word" where
  "RangeLimit r = limit r"

definition RangeCheck :: "'w::len range \<Rightarrow> bool" where
  "RangeCheck r = (base r \<le> limit r)"

definition RangeIsEmpty :: "'w::len range \<Rightarrow> bool" where
  "RangeIsEmpty r = (base r = limit r)"

definition RangeSize :: "'w::len range \<Rightarrow> 'w word" where
  "RangeSize r = limit r - base r"

definition RangesEqual :: "'w::len range \<Rightarrow> 'w range \<Rightarrow> bool" where
  "RangesEqual a b = (base a = base b \<and> limit a = limit b)"

definition RangesNest :: "'w::len range \<Rightarrow> 'w range \<Rightarrow> bool" where
  "RangesNest outer inner = (base outer \<le> base inner \<and> limit inner \<le> limit outer)"

definition RangesOverlap :: "'w::len range \<Rightarrow> 'w range \<Rightarrow> bool" where
  "RangesOverlap a b = (base a < limit b \<and> base b < limit a)"

text \<open>The addresses of a range.\<close>

definition addrs :: "'w::len range \<Rightarrow> 'w word set" where
  "addrs r = {a. base r \<le> a \<and> a < limit r}"

datatype FindDelete = FindDeleteNONE | FindDeleteLOW | FindDeleteHIGH | FindDeleteENTIRE

subsection \<open>The class of a child land\<close>

text \<open>
  The methods of a land class over child states \<open>'s\<close>, as \<open>DEFINE_CLASS\<close> lists them.
  A visitor takes a range and the closure and returns the continuation flag and the
  closure; \<open>'c\<close> is the type of closures.
\<close>

type_synonym ('c, 'w) LandVisitor = "'w range \<Rightarrow> 'c \<Rightarrow> bool \<times> 'c"

record (overloaded) ('s, 'c, 'w) LandClass =
  sizeMethod :: "'s \<Rightarrow> 'w word"
  insertMethod :: "'s \<Rightarrow> 'w range \<Rightarrow> res \<times> 'w range \<times> 's"
  insertSteal :: "'s \<Rightarrow> 'w range \<Rightarrow> res \<times> 'w range \<times> 'w range \<times> 's"
  deleteMethod :: "'s \<Rightarrow> 'w range \<Rightarrow> res \<times> 'w range \<times> 's"
  deleteSteal :: "'s \<Rightarrow> 'w range \<Rightarrow> res \<times> 'w range \<times> 'w range \<times> 's"
  iterate :: "'s \<Rightarrow> ('c, 'w) LandVisitor \<Rightarrow> 'c \<Rightarrow> bool \<times> 'c \<times> 's"
  findFirst :: "'s \<Rightarrow> 'w word \<Rightarrow> FindDelete \<Rightarrow> bool \<times> 'w range \<times> 'w range \<times> 's"
  findLast :: "'s \<Rightarrow> 'w word \<Rightarrow> FindDelete \<Rightarrow> bool \<times> 'w range \<times> 'w range \<times> 's"
  findLargest :: "'s \<Rightarrow> 'w word \<Rightarrow> FindDelete \<Rightarrow> bool \<times> 'w range \<times> 'w range \<times> 's"
  findInZones :: "'s \<Rightarrow> 'w word \<Rightarrow> 'w word \<Rightarrow> bool
                    \<Rightarrow> res \<times> bool \<times> 'w range \<times> 'w range \<times> 's"

text \<open>
  Modelled from the spec: the generic entry points of land.c (not part of the sources),
  through which the Failover delegates every operation to its children; each dispatches
  on the class of the land. The tuple of
  \<open>insertSteal\<close> and \<open>deleteSteal\<close> holds \<open>rangeReturn\<close> and then the range passed in, which
  the child may have changed; the tuple of \<open>findInZones\<close> holds the result code and then
  \<open>found\<close>.
\<close>

definition LandSize :: "('s, 'c, 'w::len) LandClass \<Rightarrow> 's \<Rightarrow> 'w word" where
  "LandSize L s = sizeMethod L s"

definition LandInsert ::
  "('s, 'c, 'w::len) LandClass \<Rightarrow> 's \<Rightarrow> 'w range \<Rightarrow> res \<times> 'w range \<times> 's" where
  "LandInsert L s r = insertMethod L s r"

definition LandInsertSteal ::
  "('s, 'c, 'w::len) LandClass \<Rightarrow> 's \<Rightarrow> 'w range \<Rightarrow> res \<times> 'w range \<times> 'w range \<times> 's" where
  "LandInsertSteal L s r = insertSteal L s r"

definition LandDelete ::
  "('s, 'c, 'w::len) LandClass \<Rightarrow> 's \<Rightarrow> 'w range \<Rightarrow> res \<times> 'w range \<times> 's" where
  "LandDelete L s r = deleteMethod L s r"

definition LandDeleteSteal ::
  "('s, 'c, 'w::len) LandClass \<Rightarrow> 's \<Rightarrow> 'w range \<Rightarrow> res \<times> 'w range \<times> 'w range \<times> 's" where
  "LandDeleteSteal L s r = deleteSteal L s r"

definition LandIterate ::
  "('s, 'c, 'w::len) LandClass \<Rightarrow> 's \<Rightarrow> ('c, 'w) LandVisitor \<Rightarrow> 'c \<Rightarrow> bool \<times> 'c \<times> 's" where
  "LandIterate L s visitor closure = iterate L s visitor closure"

definition LandFindFirst ::
  "('s, 'c, 'w::len) LandClass \<Rightarrow> 's \<Rightarrow> 'w word \<Rightarrow> FindDelete
     \<Rightarrow> bool \<times> 'w range \<times> 'w range \<times> 's" where
  "LandFindFirst L s sz findDelete = findFirst L s sz findDelete"

definition LandFindLast ::
  "('s, 'c, 'w::len) LandClass \<Rightarrow> 's \<Rightarrow> 'w word \<Rightarrow> FindDelete
     \<Rightarrow> bool \<times> 'w range \<times> 'w range \<times> 's" where
  "LandFindLast L s sz findDelete = findLast L s sz findDelete"

definition LandFindLargest ::
  "('s, 'c, 'w::len) LandClass \<Rightarrow> 's \<Rightarrow> 'w word \<Rightarrow> FindDelete
     \<Rightarrow> bool \<times> 'w range \<times> 'w range \<times> 's" where
  "LandFindLargest L s sz findDelete = findLargest L s sz findDelete"

definition LandFindInZones ::
  "('s, 'c, 'w::len) LandClass \<Rightarrow> 's \<Rightarrow> 'w word \<Rightarrow> 'w word \<Rightarrow> bool
     \<Rightarrow> res \<times> bool \<times> 'w range \<times> 'w range \<times> 's" where
  "LandFindInZones L s sz zoneSet high = findInZones L s sz zoneSet high"

subsection \<open>The Failover\<close>

text \<open>\<open>FailoverStruct\<close>: the two children.\<close>

record ('p, 's) Failover =
  primary :: 'p
  secondary :: 's

text \<open>
  What the methods of a Failover depend on besides its children's states: the classes
  of the children, \<open>LandFlush\<close> of land.c (which moves ranges of its second argument, the
  secondary, into its first, the primary, and returns a flag the Failover ignores), and
  whether \<open>AVER_CRITICAL\<close> is compiled in.
\<close>

record (overloaded) ('p, 's, 'c, 'w) FailoverEnv =
  critical :: bool
  primaryClass :: "('p, 'c, 'w) LandClass"
  secondaryClass :: "('s, 'c, 'w) LandClass"
  LandFlush :: "'p \<Rightarrow> 's \<Rightarrow> bool \<times> 'p \<times> 's"

definition failoverSize :: "('p, 's, 'c, 'w::len) FailoverEnv \<Rightarrow> ('p, 's) Failover \<Rightarrow> 'w word" where
  "failoverSize E fo =
     LandSize (primaryClass E) (primary fo) + LandSize (secondaryClass E) (secondary fo)"

definition failoverInsert ::
  "('p, 's, 'c, 'w::len) FailoverEnv \<Rightarrow> ('p, 's) Failover \<Rightarrow> 'w range
     \<Rightarrow> (res \<times> 'w range \<times> ('p, 's) Failover) option" where
  "failoverInsert E fo rng =
     (if critical E \<and> \<not> RangeCheck rng then None
      else
        let (flushed, p1, s1) = LandFlush E (primary fo) (secondary fo);
            (res, rangeReturn, p2) = LandInsert (primaryClass E) p1 rng
        in if res \<noteq> ResOK \<and> res \<noteq> ResFAIL
           then (let (res', rangeReturn', s2) = LandInsert (secondaryClass E) s1 rng
                 in Some (res', rangeReturn', \<lparr>primary = p2, secondary = s2\<rparr>))
           else Some (res, rangeReturn, \<lparr>primary = p2, secondary = s1\<rparr>))"

definition failoverInsertSteal ::
  "('p, 's, 'c, 'w::len) FailoverEnv \<Rightarrow> ('p, 's) Failover \<Rightarrow> 'w range
     \<Rightarrow> (res \<times> 'w range \<times> 'w range \<times> ('p, 's) Failover) option" where
  "failoverInsertSteal E fo rangeIO =
     (if \<not> RangeCheck rangeIO then None
      else
        let (flushed, p1, s1) = LandFlush E (primary fo) (secondary fo);
            (res, rangeReturn, rangeIO', p2) = LandInsertSteal (primaryClass E) p1 rangeIO
        in if res = ResOK \<or> res = ResFAIL
           then Some (res, rangeReturn, rangeIO', \<lparr>primary = p2, secondary = s1\<rparr>)
           else None)"

text \<open>
  The block of \<open>failoverDelete\<close> that puts a fragment of the old range back, which the source
  writes out once for \<open>left\<close> and once for \<open>right\<close>: \<open>res\<close>, the primary and the secondary go
  in and come out. The insert goes to the children directly, never to the Failover.
\<close>

definition failoverDeleteFragment ::
  "('p, 's, 'c, 'w::len) FailoverEnv \<Rightarrow> res \<Rightarrow> 'p \<Rightarrow> 's \<Rightarrow> 'w range \<Rightarrow> (res \<times> 'p \<times> 's) option" where
  "failoverDeleteFragment E res p s fragment =
     (if \<not> RangeIsEmpty fragment then
        (let (res1, dummyRange, p') = LandInsert (primaryClass E) p fragment
         in if res1 \<noteq> ResOK then
              (if res1 = ResFAIL then None
               else
                 let (res2, dummyRange', s') = LandInsert (secondaryClass E) s fragment
                 in if res2 = ResOK then Some (res2, p', s') else None)
            else Some (res1, p', s))
      else Some (res, p, s))"

text \<open>
  The branch of \<open>failoverDelete\<close> taken when the primary found the range and could not
  delete it: the whole of \<open>oldRange\<close> is deleted from the primary and the two fragments are
  put back. When that delete fails the source returns its result at once; here the result
  goes through the last test of \<open>failoverDelete\<close>, which leaves a result other than \<open>ResOK\<close>
  as it is.
\<close>

definition failoverDeleteRecover ::
  "('p, 's, 'c, 'w::len) FailoverEnv \<Rightarrow> res \<Rightarrow> 'w range \<Rightarrow> 'w range \<Rightarrow> 'p \<Rightarrow> 's
     \<Rightarrow> (res \<times> 'p \<times> 's) option" where
  "failoverDeleteRecover E res oldRange rng p2 s1 =
     (if \<not> ResIsAllocFailure res then None
      else
        let (res1, dummyRange, p3) = LandDelete (primaryClass E) p2 oldRange
        in if res1 \<noteq> ResOK then Some (res1, p3, s1)
           else if \<not> RangesEqual oldRange dummyRange then None
           else
             (case failoverDeleteFragment E res1 p3 s1
                     (RangeInit (RangeBase oldRange) (RangeBase rng)) of
                None \<Rightarrow> None
              | Some (res2, p4, s2) \<Rightarrow>
                  failoverDeleteFragment E res2 p4 s2
                    (RangeInit (RangeLimit rng) (RangeLimit oldRange))))"

text \<open>
  \<open>rangeReturn\<close> is written on the path through the secondary (by the secondary) and when
  the result is \<open>ResOK\<close>; otherwise it is left alone, which is \<open>None\<close> in the result.
\<close>

definition failoverDelete ::
  "('p, 's, 'c, 'w::len) FailoverEnv \<Rightarrow> ('p, 's) Failover \<Rightarrow> 'w range
     \<Rightarrow> (res \<times> 'w range option \<times> ('p, 's) Failover) option" where
  "failoverDelete E fo rng =
     (if \<not> RangeCheck rng then None
      else
        let (flushed, p1, s1) = LandFlush E (primary fo) (secondary fo);
            (res, oldRange, p2) = LandDelete (primaryClass E) p1 rng
        in if res = ResFAIL then
             (let (res', rangeReturn, s2) = LandDelete (secondaryClass E) s1 rng
              in Some (res', Some rangeReturn, \<lparr>primary = p2, secondary = s2\<rparr>))
           else
             (case (if res \<noteq> ResOK then failoverDeleteRecover E res oldRange rng p2 s1
                    else Some (res, p2, s1)) of
                None \<Rightarrow> None
              | Some (res', p', s') \<Rightarrow>
                  if res' = ResOK then
                    (if critical E \<and> \<not> RangesNest oldRange rng then None
                     else Some (res', Some oldRange, \<lparr>primary = p', secondary = s'\<rparr>))
                  else Some (res', None, \<lparr>primary = p', secondary = s'\<rparr>)))"

definition failoverDeleteSteal ::
  "('p, 's, 'c, 'w::len) FailoverEnv \<Rightarrow> ('p, 's) Failover \<Rightarrow> 'w range
     \<Rightarrow> (res \<times> 'w range \<times> 'w range \<times> ('p, 's) Failover) option" where
  "failoverDeleteSteal E fo rng =
     (if \<not> RangeCheck rng then None
      else
        let (flushed, p1, s1) = LandFlush E (primary fo) (secondary fo);
            (res, rangeReturn, rng', p2) = LandDeleteSteal (primaryClass E) p1 rng
        in if res = ResFAIL then
             (let (res', rangeReturn', rng'', s2) = LandDeleteSteal (secondaryClass E) s1 rng'
              in if res' = ResOK \<or> res' = ResFAIL
                 then Some (res', rangeReturn', rng'', \<lparr>primary = p2, secondary = s2\<rparr>)
                 else None)
           else if res = ResOK
           then Some (res, rangeReturn, rng', \<lparr>primary = p2, secondary = s1\<rparr>)
           else None)"

text \<open>\<open>&&\<close> and \<open>||\<close> evaluate their second operand only when the first does not decide.\<close>

definition failoverIterate ::
  "('p, 's, 'c, 'w::len) FailoverEnv \<Rightarrow> ('p, 's) Failover \<Rightarrow> ('c, 'w) LandVisitor \<Rightarrow> 'c
     \<Rightarrow> bool \<times> 'c \<times> ('p, 's) Failover" where
  "failoverIterate E fo visitor closure =
     (let (b1, c1, p1) = LandIterate (primaryClass E) (primary fo) visitor closure
      in if b1 then
           (let (b2, c2, s1) = LandIterate (secondaryClass E) (secondary fo) visitor c1
            in (b2, c2, \<lparr>primary = p1, secondary = s1\<rparr>))
         else (False, c1, \<lparr>primary = p1, secondary = secondary fo\<rparr>))"

definition failoverFindFirst ::
  "('p, 's, 'c, 'w::len) FailoverEnv \<Rightarrow> ('p, 's) Failover \<Rightarrow> 'w word \<Rightarrow> FindDelete
     \<Rightarrow> bool \<times> 'w range \<times> 'w range \<times> ('p, 's) Failover" where
  "failoverFindFirst E fo sz findDelete =
     (let (flushed, p1, s1) = LandFlush E (primary fo) (secondary fo);
          (found, rangeReturn, oldRangeReturn, p2) =
             LandFindFirst (primaryClass E) p1 sz findDelete
      in if found then (True, rangeReturn, oldRangeReturn, \<lparr>primary = p2, secondary = s1\<rparr>)
         else
           (let (found', rangeReturn', oldRangeReturn', s2) =
                  LandFindFirst (secondaryClass E) s1 sz findDelete
            in (found', rangeReturn', oldRangeReturn', \<lparr>primary = p2, secondary = s2\<rparr>)))"

definition failoverFindLast ::
  "('p, 's, 'c, 'w::len) FailoverEnv \<Rightarrow> ('p, 's) Failover \<Rightarrow> 'w word \<Rightarrow> FindDelete
     \<Rightarrow> bool \<times> 'w range \<times> 'w range \<times> ('p, 's) Failover" where
  "failoverFindLast E fo sz findDelete =
     (let (flushed, p1, s1) = LandFlush E (primary fo) (secondary fo);
          (found, rangeReturn, oldRangeReturn, p2) =
             LandFindLast (primaryClass E) p1 sz findDelete
      in if found then (True, rangeReturn, oldRangeReturn, \<lparr>primary = p2, secondary = s1\<rparr>)
         else
           (let (found', rangeReturn', oldRangeReturn', s2) =
                  LandFindLast (secondaryClass E) s1 sz findDelete
            in (found', rangeReturn', oldRangeReturn', \<lparr>primary = p2, secondary = s2\<rparr>)))"

definition failoverFindLargest ::
  "('p, 's, 'c, 'w::len) FailoverEnv \<Rightarrow> ('p, 's) Failover \<Rightarrow> 'w word \<Rightarrow> FindDelete
     \<Rightarrow> bool \<times> 'w range \<times> 'w range \<times> ('p, 's) Failover" where
  "failoverFindLargest E fo sz findDelete =
     (let (flushed, p1, s1) = LandFlush E (primary fo) (secondary fo);
          (found, rangeReturn, oldRangeReturn, p2) =
             LandFindLargest (primaryClass E) p1 sz findDelete
      in if found then (True, rangeReturn, oldRangeReturn, \<lparr>primary = p2, secondary = s1\<rparr>)
         else
           (let (found', rangeReturn', oldRangeReturn', s2) =
                  LandFindLargest (secondaryClass E) s1 sz findDelete
            in (found', rangeReturn', oldRangeReturn', \<lparr>primary = p2, secondary = s2\<rparr>)))"

text \<open>
  \<open>failoverFindInZones\<close> starts with \<open>AVER_CRITICAL(FALSE)\<close> (the code is marked untested),
  so it stops there whenever the critical checks are compiled in.
\<close>

definition failoverFindInZones ::
  "('p, 's, 'c, 'w::len) FailoverEnv \<Rightarrow> ('p, 's) Failover \<Rightarrow> 'w word \<Rightarrow> 'w word \<Rightarrow> bool
     \<Rightarrow> (res \<times> bool \<times> 'w range \<times> 'w range \<times> ('p, 's) Failover) option" where
  "failoverFindInZones E fo sz zoneSet high =
     (if critical E then None
      else
        let (flushed, p1, s1) = LandFlush E (primary fo) (secondary fo);
            (res, found, rangeReturn, oldRangeReturn, p2) =
               LandFindInZones (primaryClass E) p1 sz zoneSet high
        in if res \<noteq> ResOK \<or> \<not> found then
             (let (res', found', rangeReturn', oldRangeReturn', s2) =
                    LandFindInZones (secondaryClass E) s1 sz zoneSet high
              in Some (res', found', rangeReturn', oldRangeReturn',
                       \<lparr>primary = p2, secondary = s2\<rparr>))
           else Some (res, found, rangeReturn, oldRangeReturn,
                      \<lparr>primary = p2, secondary = s1\<rparr>))"

subsection \<open>The contract of a child land\<close>

text \<open>
  Modelled from the spec: what the Failover may assume of a child Land (the classes of
  the children, CBS and Freelist, and land.c are not part of the sources). A Land is a
  set of disjoint non-empty ranges; \<open>free\<close> gives the addresses it holds and \<open>invar\<close> is the
  invariant of its representation.

  \<open>insert\<close> adds the range when it returns \<open>ResOK\<close> and changes nothing otherwise; it
  returns \<open>ResFAIL\<close> only as a semantic refusal, when the range overlaps what the land
  holds.
\<close>

definition land_insert_ok ::
  "('s, 'c, 'w::len) LandClass \<Rightarrow> ('s \<Rightarrow> bool) \<Rightarrow> ('s \<Rightarrow> 'w word set) \<Rightarrow> bool" where
  "land_insert_ok L invar free =
     (\<forall>s r. invar s \<and> base r < limit r \<longrightarrow>
        (case LandInsert L s r of (res, rangeReturn, s') \<Rightarrow>
           invar s' \<and>
           (if res = ResOK then free s' = free s \<union> addrs r else free s' = free s) \<and>
           (res = ResFAIL \<longrightarrow> addrs r \<inter> free s \<noteq> {})))"

text \<open>
  Modelled from the spec: \<open>delete\<close> removes the range when it returns \<open>ResOK\<close> and changes
  nothing otherwise; unless it returns \<open>ResFAIL\<close> (range not present), \<open>old_range\<close> is the
  range of the land that contained the deleted one.
\<close>

definition land_delete_ok ::
  "('s, 'c, 'w::len) LandClass \<Rightarrow> ('s \<Rightarrow> bool) \<Rightarrow> ('s \<Rightarrow> 'w word set) \<Rightarrow> bool" where
  "land_delete_ok L invar free =
     (\<forall>s r. invar s \<and> RangeCheck r \<longrightarrow>
        (case LandDelete L s r of (res, oldRange, s') \<Rightarrow>
           invar s' \<and>
           (if res = ResOK then free s' = free s - addrs r else free s' = free s) \<and>
           (res \<noteq> ResFAIL \<longrightarrow> RangesNest oldRange r \<and> addrs oldRange \<subseteq> free s)))"

text \<open>
  Modelled from the spec: when a delete found the range and failed, deleting the whole of
  the old range releases metadata and succeeds, reporting that same range.
\<close>

definition land_delete_whole_ok ::
  "('s, 'c, 'w::len) LandClass \<Rightarrow> ('s \<Rightarrow> bool) \<Rightarrow> bool" where
  "land_delete_whole_ok L invar =
     (\<forall>s r. invar s \<and> RangeCheck r \<longrightarrow>
        (case LandDelete L s r of (res, oldRange, s') \<Rightarrow>
           res \<noteq> ResOK \<and> res \<noteq> ResFAIL \<longrightarrow>
             (case LandDelete L s' oldRange of (res1, dummyRange, s'') \<Rightarrow>
                res1 = ResOK \<and> dummyRange = oldRange)))"

text \<open>
  Modelled from the spec: the secondary never needs fresh allocation to admit a range
  that is free: its insert of a non-empty range that overlaps nothing it holds succeeds.
\<close>

definition land_insert_total ::
  "('s, 'c, 'w::len) LandClass \<Rightarrow> ('s \<Rightarrow> bool) \<Rightarrow> ('s \<Rightarrow> 'w word set) \<Rightarrow> bool" where
  "land_insert_total L invar free =
     (\<forall>s r. invar s \<and> base r < limit r \<and> addrs r \<inter> free s = {} \<longrightarrow>
        fst (LandInsert L s r) = ResOK)"

text \<open>
  Modelled from the spec: flush is a best-effort migration of the secondary's ranges into
  the primary; it moves addresses from one child to the other and neither adds nor loses
  any.
\<close>

definition flush_ok ::
  "('p \<Rightarrow> 's \<Rightarrow> bool \<times> 'p \<times> 's) \<Rightarrow> ('p \<Rightarrow> bool) \<Rightarrow> ('p \<Rightarrow> 'w::len word set)
     \<Rightarrow> ('s \<Rightarrow> bool) \<Rightarrow> ('s \<Rightarrow> 'w word set) \<Rightarrow> bool" where
  "flush_ok flush invP freeP invS freeS =
     (\<forall>p s. invP p \<and> invS s \<longrightarrow>
        (case flush p s of (flushed, p', s') \<Rightarrow>
           invP p' \<and> invS s' \<and> freeP p' \<union> freeS s' = freeP p \<union> freeS s \<and>
           (freeP p \<inter> freeS s = {} \<longrightarrow> freeP p' \<inter> freeS s' = {})))"

text \<open>
  Modelled from the spec: \<open>iterate\<close> visits every range of the land in the land's own
  order and stops when the visitor returns false. \<open>iterateRanges\<close> is that loop over a list
  of ranges; a class iterates the ranges \<open>rangesOf\<close> gives when its method is this loop and
  leaves the land as it was.
\<close>

fun iterateRanges :: "'w::len range list \<Rightarrow> ('c, 'w) LandVisitor \<Rightarrow> 'c \<Rightarrow> bool \<times> 'c" where
  "iterateRanges [] visitor closure = (True, closure)"
| "iterateRanges (r # rs) visitor closure =
     (case visitor r closure of
        (True, closure') \<Rightarrow> iterateRanges rs visitor closure'
      | (False, closure') \<Rightarrow> (False, closure'))"

definition land_iterates ::
  "('s, 'c, 'w::len) LandClass \<Rightarrow> ('s \<Rightarrow> 'w range list) \<Rightarrow> bool" where
  "land_iterates L rangesOf =
     (\<forall>s visitor closure.
        LandIterate L s visitor closure =
          (fst (iterateRanges (rangesOf s) visitor closure),
           snd (iterateRanges (rangesOf s) visitor closure), s))"

text \<open>
  Modelled from the spec: the children of a Failover that its delete relies on: both are
  Lands, deleting a whole old range from the primary succeeds, the secondary admits every
  range that is free, and the flush moves addresses between them.
\<close>

definition failover_children_ok ::
  "('p, 's, 'c, 'w::len) FailoverEnv \<Rightarrow> ('p \<Rightarrow> bool) \<Rightarrow> ('p \<Rightarrow> 'w word set)
     \<Rightarrow> ('s \<Rightarrow> bool) \<Rightarrow> ('s \<Rightarrow> 'w word set) \<Rightarrow> bool" where
  "failover_children_ok E invP freeP invS freeS =
     (land_insert_ok (primaryClass E) invP freeP \<and>
      land_delete_ok (primaryClass E) invP freeP \<and>
      land_delete_whole_ok (primaryClass E) invP \<and>
      land_insert_ok (secondaryClass E) invS freeS \<and>
      land_insert_total (secondaryClass E) invS freeS \<and>
      flush_ok (LandFlush E) invP freeP invS freeS)"

text \<open>
  The spec's words for putting a fragment back: a fragment is re-inserted only when it is
  not empty; it is inserted into the primary and, when that fails, into the secondary.
  The pair is the primary and the secondary.
\<close>

definition spec_reinsert ::
  "('p, 's, 'c, 'w::len) FailoverEnv \<Rightarrow> 'p \<times> 's \<Rightarrow> 'w range \<Rightarrow> 'p \<times> 's" where
  "spec_reinsert E ps fragment =
     (if base fragment = limit fragment then ps
      else
        (case LandInsert (primaryClass E) (fst ps) fragment of
           (res, rangeReturn, p') \<Rightarrow>
             if res = ResOK then (p', snd ps)
             else (p', snd (snd (LandInsert (secondaryClass E) (snd ps) fragment)))))"

text \<open>What a Failover holds: the addresses of its two children.\<close>

definition failoverFree ::
  "('p \<Rightarrow> 'w::len word set) \<Rightarrow> ('s \<Rightarrow> 'w word set) \<Rightarrow> ('p, 's) Failover \<Rightarrow> 'w word set" where
  "failoverFree freeP freeS fo = freeP (primary fo) \<union> freeS (secondary fo)"

subsection \<open>A land of blocks\<close>

text \<open>
  Modelled from the spec: a child Land to run the Failover on (the classes of the
  children are not part of the sources). The land is a list of disjoint non-empty ranges
  in address order. Its metadata holds at most \<open>cap\<close> blocks (\<open>None\<close>: no bound, as for a
  free list kept inside the free memory itself); an operation that needs one block more
  than that returns \<open>ResALLOC_FAILURE\<close> and changes nothing. Ranges are not coalesced, which
  the spec allows.
\<close>

definition blockFull :: "nat option \<Rightarrow> 'a list \<Rightarrow> bool" where
  "blockFull cap bs = (case cap of None \<Rightarrow> False | Some n \<Rightarrow> n \<le> length bs)"

fun insertBlock :: "'w::len range \<Rightarrow> 'w range list \<Rightarrow> 'w range list" where
  "insertBlock r [] = [r]"
| "insertBlock r (b # bs) = (if base r < base b then r # b # bs else b # insertBlock r bs)"

definition replaceBlock :: "'w::len range \<Rightarrow> 'w range list \<Rightarrow> 'w range list \<Rightarrow> 'w range list" where
  "replaceBlock b fragments bs = concat (map (\<lambda>x. if x = b then fragments else [x]) bs)"

definition blockInv :: "'w::len range list \<Rightarrow> bool" where
  "blockInv bs =
     (distinct bs \<and> (\<forall>b \<in> set bs. base b < limit b) \<and>
      (\<forall>b \<in> set bs. \<forall>c \<in> set bs. b \<noteq> c \<longrightarrow> \<not> RangesOverlap b c))"

text \<open>What is left of the block \<open>b\<close> when the range \<open>r\<close> is taken out of it.\<close>

definition fragments :: "'w::len range \<Rightarrow> 'w range \<Rightarrow> 'w range list" where
  "fragments b r =
     filter (\<lambda>f. \<not> RangeIsEmpty f) [RangeInit (base b) (base r), RangeInit (limit r) (limit b)]"

definition blockFree :: "'w::len range list \<Rightarrow> 'w word set" where
  "blockFree bs = (\<Union>b \<in> set bs. addrs b)"

definition blockSize :: "'w::len range list \<Rightarrow> 'w word" where
  "blockSize bs = sum_list (map RangeSize bs)"

definition blockInsert ::
  "nat option \<Rightarrow> 'w::len range list \<Rightarrow> 'w range \<Rightarrow> res \<times> 'w range \<times> 'w range list" where
  "blockInsert cap bs r =
     (if list_ex (\<lambda>b. RangesOverlap b r) bs then (ResFAIL, r, bs)
      else if blockFull cap bs then (ResALLOC_FAILURE, r, bs)
      else (ResOK, r, insertBlock r bs))"

definition blockDelete ::
  "nat option \<Rightarrow> 'w::len range list \<Rightarrow> 'w range \<Rightarrow> res \<times> 'w range \<times> 'w range list" where
  "blockDelete cap bs r =
     (case find (\<lambda>b. RangesNest b r) bs of
        None \<Rightarrow> (ResFAIL, r, bs)
      | Some b \<Rightarrow>
          let left = RangeInit (base b) (base r);
              right = RangeInit (limit r) (limit b)
          in if \<not> RangeIsEmpty left \<and> \<not> RangeIsEmpty right \<and> blockFull cap bs
             then (ResALLOC_FAILURE, b, bs)
             else (ResOK, b, replaceBlock b (fragments b r) bs))"

text \<open>The steal variants take the metadata they need from the range, so they do not fail
  for lack of it; they leave the range passed in as it is.\<close>

definition blockInsertSteal ::
  "'w::len range list \<Rightarrow> 'w range \<Rightarrow> res \<times> 'w range \<times> 'w range \<times> 'w range list" where
  "blockInsertSteal bs r =
     (let (res, rangeReturn, bs') = blockInsert None bs r in (res, rangeReturn, r, bs'))"

definition blockDeleteSteal ::
  "'w::len range list \<Rightarrow> 'w range \<Rightarrow> res \<times> 'w range \<times> 'w range \<times> 'w range list" where
  "blockDeleteSteal bs r =
     (let (res, oldRange, bs') = blockDelete None bs r in (res, oldRange, r, bs'))"

definition blockIterate ::
  "'w::len range list \<Rightarrow> ('c, 'w) LandVisitor \<Rightarrow> 'c \<Rightarrow> bool \<times> 'c \<times> 'w range list" where
  "blockIterate bs visitor closure =
     (fst (iterateRanges bs visitor closure), snd (iterateRanges bs visitor closure), bs)"

text \<open>
  The finds locate a block of at least \<open>sz\<close> bytes: the first or the last in address
  order, or the largest. \<open>findDelete\<close> says which part of the block found is deleted: none,
  the low or the high \<open>sz\<close> bytes, or the entire block. A miss leaves the empty range.
\<close>

definition blockFound ::
  "'w::len range list \<Rightarrow> 'w word \<Rightarrow> FindDelete \<Rightarrow> 'w range
     \<Rightarrow> bool \<times> 'w range \<times> 'w range \<times> 'w range list" where
  "blockFound bs sz findDelete b =
     (case findDelete of
        FindDeleteNONE \<Rightarrow> (True, b, b, bs)
      | FindDeleteLOW \<Rightarrow>
          (True, RangeInit (base b) (base b + sz), b,
           replaceBlock b (filter (\<lambda>f. \<not> RangeIsEmpty f) [RangeInit (base b + sz) (limit b)]) bs)
      | FindDeleteHIGH \<Rightarrow>
          (True, RangeInit (limit b - sz) (limit b), b,
           replaceBlock b (filter (\<lambda>f. \<not> RangeIsEmpty f) [RangeInit (base b) (limit b - sz)]) bs)
      | FindDeleteENTIRE \<Rightarrow> (True, b, b, replaceBlock b [] bs))"

definition blockMiss ::
  "'w::len range list \<Rightarrow> bool \<times> 'w range \<times> 'w range \<times> 'w range list" where
  "blockMiss bs = (False, RangeInit 0 0, RangeInit 0 0, bs)"

definition blockFindFirst ::
  "'w::len range list \<Rightarrow> 'w word \<Rightarrow> FindDelete \<Rightarrow> bool \<times> 'w range \<times> 'w range \<times> 'w range list" where
  "blockFindFirst bs sz findDelete =
     (case find (\<lambda>b. sz \<le> RangeSize b) bs of
        None \<Rightarrow> blockMiss bs
      | Some b \<Rightarrow> blockFound bs sz findDelete b)"

definition blockFindLast ::
  "'w::len range list \<Rightarrow> 'w word \<Rightarrow> FindDelete \<Rightarrow> bool \<times> 'w range \<times> 'w range \<times> 'w range list" where
  "blockFindLast bs sz findDelete =
     (case find (\<lambda>b. sz \<le> RangeSize b) (rev bs) of
        None \<Rightarrow> blockMiss bs
      | Some b \<Rightarrow> blockFound bs sz findDelete b)"

fun largestBlock :: "'w::len range list \<Rightarrow> 'w range option" where
  "largestBlock [] = None"
| "largestBlock (b # bs) =
     (case largestBlock bs of
        None \<Rightarrow> Some b
      | Some c \<Rightarrow> if RangeSize b < RangeSize c then Some c else Some b)"

definition blockFindLargest ::
  "'w::len range list \<Rightarrow> 'w word \<Rightarrow> FindDelete \<Rightarrow> bool \<times> 'w range \<times> 'w range \<times> 'w range list" where
  "blockFindLargest bs sz findDelete =
     (case largestBlock bs of
        None \<Rightarrow> blockMiss bs
      | Some b \<Rightarrow> if sz \<le> RangeSize b then blockFound bs sz findDelete b else blockMiss bs)"

text \<open>
  The zone of an address is not part of the sources; \<open>inZones\<close> says whether a range lies in
  a zone set. The find in zones locates a block without deleting from it.
\<close>

definition blockFindInZones ::
  "('w::len word \<Rightarrow> 'w range \<Rightarrow> bool) \<Rightarrow> 'w range list \<Rightarrow> 'w word \<Rightarrow> 'w word \<Rightarrow> bool
     \<Rightarrow> res \<times> bool \<times> 'w range \<times> 'w range \<times> 'w range list" where
  "blockFindInZones inZones bs sz zoneSet high =
     (case find (\<lambda>b. sz \<le> RangeSize b \<and> inZones zoneSet b) (if high then rev bs else bs) of
        None \<Rightarrow> (ResOK, False, RangeInit 0 0, RangeInit 0 0, bs)
      | Some b \<Rightarrow> (ResOK, True, b, b, bs))"

definition blockLand ::
  "nat option \<Rightarrow> ('w::len word \<Rightarrow> 'w range \<Rightarrow> bool) \<Rightarrow> ('w range list, 'c, 'w) LandClass" where
  "blockLand cap inZones =
     \<lparr>sizeMethod = blockSize,
      insertMethod = blockInsert cap,
      insertSteal = blockInsertSteal,
      deleteMethod = blockDelete cap,
      deleteSteal = blockDeleteSteal,
      iterate = blockIterate,
      findFirst = blockFindFirst,
      findLast = blockFindLast,
      findLargest = blockFindLargest,
      findInZones = blockFindInZones inZones\<rparr>"

text \<open>
  Modelled from the spec: flush offers each range of the source to the destination and
  removes from the source those the destination accepted, moving as many ranges as the
  destination will accept. The flag tells whether all were moved.
\<close>

fun blockFlush ::
  "('p \<Rightarrow> 'w::len range \<Rightarrow> res \<times> 'w range \<times> 'p) \<Rightarrow> 'p \<Rightarrow> 'w range list
     \<Rightarrow> bool \<times> 'p \<times> 'w range list" where
  "blockFlush ins p [] = (True, p, [])"
| "blockFlush ins p (r # rs) =
     (case ins p r of
        (res, rangeReturn, p') \<Rightarrow>
          if res = ResOK then blockFlush ins p' rs
          else (case blockFlush ins p' rs of (flushed, p'', rs') \<Rightarrow> (False, p'', r # rs')))"

text \<open>A Failover over two lands of blocks, the primary bounded by \<open>capP\<close>.\<close>

definition blockEnv ::
  "bool \<Rightarrow> nat option \<Rightarrow> nat option
     \<Rightarrow> ('w::len range list, 'w range list, 'c, 'w) FailoverEnv" where
  "blockEnv crit capP capS =
     \<lparr>critical = crit,
      primaryClass = blockLand capP (\<lambda>zoneSet r. True),
      secondaryClass = blockLand capS (\<lambda>zoneSet r. True),
      LandFlush = blockFlush (blockInsert capP)\<rparr>"

text \<open>Visitors for the scenarios: one counts its calls, one records the ranges it is
  shown and continues, one records the range it is shown and stops.\<close>

definition countVisitor :: "(nat, 'w::len) LandVisitor" where
  "countVisitor r n = (True, Suc n)"

definition logVisitor :: "('w::len range list, 'w) LandVisitor" where
  "logVisitor r seen = (True, seen @ [r])"

definition stopVisitor :: "('w::len range list, 'w) LandVisitor" where
  "stopVisitor r seen = (False, seen @ [r])"

text \<open>The examples run on a 64-bit platform, with an unbounded secondary.\<close>

abbreviation Rg :: "64 word \<Rightarrow> 64 word \<Rightarrow> 64 range" where
  "Rg b l \<equiv> RangeInit b l"

abbreviation env64 ::
  "bool \<Rightarrow> nat option \<Rightarrow> (64 range list, 64 range list, unit, 64) FailoverEnv" where
  "env64 crit capP \<equiv> blockEnv crit capP None"

abbreviation logEnv64 ::
  "(64 range list, 64 range list, 64 range list, 64) FailoverEnv" where
  "logEnv64 \<equiv> blockEnv True None None"

section \<open>Properties of the Failover\<close>

lemmas block_defs =
  blockEnv_def blockLand_def blockInsert_def blockDelete_def blockFull_def replaceBlock_def
  fragments_def
  blockInsertSteal_def blockDeleteSteal_def blockIterate_def blockFound_def blockMiss_def
  blockFindFirst_def blockFindLast_def blockFindLargest_def blockFindInZones_def blockSize_def

lemmas land_defs =
  LandSize_def LandInsert_def LandInsertSteal_def LandDelete_def LandDeleteSteal_def
  LandIterate_def LandFindFirst_def LandFindLast_def LandFindLargest_def LandFindInZones_def

lemmas range_defs =
  RangeInit_def RangeBase_def RangeLimit_def RangeCheck_def RangeIsEmpty_def RangeSize_def
  RangesEqual_def RangesNest_def RangesOverlap_def

subsection \<open>Size\<close>

text \<open>
  C3. The size of a Failover is the size of its primary plus the size of its secondary.
  Sizes are machine words, so the sum is the wrapping one; it is the sum of the two
  numbers whenever that sum fits the word, as it does for children that hold disjoint
  sets of addresses.
\<close>

theorem failoverSize_additive:
  fixes E :: "('p, 's, 'c, 'w::len) FailoverEnv"
  shows "failoverSize E fo =
           LandSize (primaryClass E) (primary fo) + LandSize (secondaryClass E) (secondary fo) \<and>
         (unat (LandSize (primaryClass E) (primary fo)) +
            unat (LandSize (secondaryClass E) (secondary fo)) < 2 ^ LENGTH('w) \<longrightarrow>
          unat (failoverSize E fo) =
            unat (LandSize (primaryClass E) (primary fo)) +
            unat (LandSize (secondaryClass E) (secondary fo)))"
  by (simp add: failoverSize_def unat_add_lem)

theorem failoverSize_additive_witness:
  "unat (LandSize (primaryClass (env64 True None)) [Rg 0 10]) +
     unat (LandSize (secondaryClass (env64 True None)) [Rg 100 110]) < 2 ^ 64 \<and>
   unat (failoverSize (env64 True None) \<lparr>primary = [Rg 0 10], secondary = [Rg 100 110]\<rparr>) = 20"
  using failoverSize_additive
          [of "env64 True None" "\<lparr>primary = [Rg 0 10], secondary = [Rg 100 110]\<rparr>"]
  by (simp add: block_defs land_defs range_defs)

subsection \<open>Insert\<close>

text \<open>
  C2. \<open>failoverInsert\<close> flushes the secondary into the primary, whatever flag the flush
  returns, and inserts into the primary. When the primary's result is \<open>ResOK\<close> or \<open>ResFAIL\<close>
  that result and range are returned and the secondary is as the flush left it; for any
  other result the insert is tried on the secondary, whose result and range are returned.
\<close>

theorem failoverInsert_spill:
  assumes "RangeCheck rng"
    and "LandFlush E (primary fo) (secondary fo) = (flushed, p1, s1)"
    and "LandInsert (primaryClass E) p1 rng = (resP, rangeP, p2)"
    and "LandInsert (secondaryClass E) s1 rng = (resS, rangeS, s2)"
  shows "failoverInsert E fo rng =
           (if resP = ResOK \<or> resP = ResFAIL
            then Some (resP, rangeP, \<lparr>primary = p2, secondary = s1\<rparr>)
            else Some (resS, rangeS, \<lparr>primary = p2, secondary = s2\<rparr>))"
  using assms by (simp add: failoverInsert_def)

theorem failoverInsert_spill_witness:
  "RangeCheck (Rg 100 110) \<and>
   LandFlush (env64 True (Some 0)) [] [] = (True, [], []) \<and>
   LandInsert (primaryClass (env64 True (Some 0))) [] (Rg 100 110) =
     (ResALLOC_FAILURE, Rg 100 110, []) \<and>
   LandInsert (secondaryClass (env64 True (Some 0))) [] (Rg 100 110) =
     (ResOK, Rg 100 110, [Rg 100 110]) \<and>
   failoverInsert (env64 True (Some 0)) \<lparr>primary = [], secondary = []\<rparr> (Rg 100 110) =
     Some (ResOK, Rg 100 110, \<lparr>primary = [], secondary = [Rg 100 110]\<rparr>)"
  using failoverInsert_spill
          [where E = "env64 True (Some 0)" and fo = "\<lparr>primary = [], secondary = []\<rparr>"
             and rng = "Rg 100 110" and flushed = True and ?p1.0 = "[]" and ?s1.0 = "[]"
             and resP = ResALLOC_FAILURE and rangeP = "Rg 100 110" and ?p2.0 = "[]"
             and resS = ResOK and rangeS = "Rg 100 110" and ?s2.0 = "[Rg 100 110]"]
  by (simp add: block_defs land_defs range_defs)

subsection \<open>Delete of a range that is not in the primary\<close>

text \<open>
  C4. When, after the flush, the primary's delete returns \<open>ResFAIL\<close>, \<open>failoverDelete\<close>
  returns the result and old range of the secondary's delete; the primary stays as its
  failed delete left it and nothing is put back anywhere.
\<close>

theorem failoverDelete_not_in_primary:
  assumes "RangeCheck rng"
    and "LandFlush E (primary fo) (secondary fo) = (flushed, p1, s1)"
    and "LandDelete (primaryClass E) p1 rng = (ResFAIL, oldP, p2)"
    and "LandDelete (secondaryClass E) s1 rng = (resS, oldS, s2)"
  shows "failoverDelete E fo rng = Some (resS, Some oldS, \<lparr>primary = p2, secondary = s2\<rparr>)"
  using assms by (simp add: failoverDelete_def)

theorem failoverDelete_not_in_primary_witness:
  "RangeCheck (Rg 50 60) \<and>
   LandFlush (env64 True None) [Rg 0 10] [Rg 100 110] = (True, [Rg 0 10, Rg 100 110], []) \<and>
   LandDelete (primaryClass (env64 True None)) [Rg 0 10, Rg 100 110] (Rg 50 60) =
     (ResFAIL, Rg 50 60, [Rg 0 10, Rg 100 110]) \<and>
   LandDelete (secondaryClass (env64 True None)) [] (Rg 50 60) = (ResFAIL, Rg 50 60, []) \<and>
   failoverDelete (env64 True None) \<lparr>primary = [Rg 0 10], secondary = [Rg 100 110]\<rparr> (Rg 50 60) =
     Some (ResFAIL, Some (Rg 50 60), \<lparr>primary = [Rg 0 10, Rg 100 110], secondary = []\<rparr>)"
  using failoverDelete_not_in_primary
          [where E = "env64 True None"
             and fo = "\<lparr>primary = [Rg 0 10], secondary = [Rg 100 110]\<rparr>"
             and rng = "Rg 50 60" and flushed = True and ?p1.0 = "[Rg 0 10, Rg 100 110]"
             and ?s1.0 = "[]" and oldP = "Rg 50 60" and ?p2.0 = "[Rg 0 10, Rg 100 110]"
             and resS = ResFAIL and oldS = "Rg 50 60" and ?s2.0 = "[]"]
  by (simp add: block_defs land_defs range_defs)

subsection \<open>Find first, last and largest\<close>

text \<open>
  C5 (as amended). Each of \<open>failoverFindFirst\<close>, \<open>failoverFindLast\<close> and
  \<open>failoverFindLargest\<close>, for any size and any \<open>findDelete\<close>, flushes the secondary into the
  primary and queries the primary. On a hit of the primary that hit is the result and the
  secondary is as the flush left it; only on a miss is the secondary queried, and its
  answer is the result. So a range of the primary wins: with the primary holding \<open>[0,10)\<close>
  and \<open>[100,130)\<close> and the secondary \<open>[200,215)\<close>, the largest range of at least 15
  bytes is found in the primary and is \<open>[100,130)\<close>, whatever the bounds of the two lands.
\<close>

theorem failoverFind_primary_first:
  fixes E :: "('p, 's, 'c, 'w::len) FailoverEnv"
  assumes "LandFlush E (primary fo) (secondary fo) = (flushed, p1, s1)"
  shows
    "(case LandFindFirst (primaryClass E) p1 sz fd of
        (found, rg, old, p2) \<Rightarrow>
          failoverFindFirst E fo sz fd =
            (if found then (True, rg, old, \<lparr>primary = p2, secondary = s1\<rparr>)
             else (case LandFindFirst (secondaryClass E) s1 sz fd of
                     (found', rg', old', s2) \<Rightarrow>
                       (found', rg', old', \<lparr>primary = p2, secondary = s2\<rparr>)))) \<and>
     (case LandFindLast (primaryClass E) p1 sz fd of
        (found, rg, old, p2) \<Rightarrow>
          failoverFindLast E fo sz fd =
            (if found then (True, rg, old, \<lparr>primary = p2, secondary = s1\<rparr>)
             else (case LandFindLast (secondaryClass E) s1 sz fd of
                     (found', rg', old', s2) \<Rightarrow>
                       (found', rg', old', \<lparr>primary = p2, secondary = s2\<rparr>)))) \<and>
     (case LandFindLargest (primaryClass E) p1 sz fd of
        (found, rg, old, p2) \<Rightarrow>
          failoverFindLargest E fo sz fd =
            (if found then (True, rg, old, \<lparr>primary = p2, secondary = s1\<rparr>)
             else (case LandFindLargest (secondaryClass E) s1 sz fd of
                     (found', rg', old', s2) \<Rightarrow>
                       (found', rg', old', \<lparr>primary = p2, secondary = s2\<rparr>)))) \<and>
     fst (snd (failoverFindLargest
                 (blockEnv crit capP capS :: (64 range list, 64 range list, 'c, 64) FailoverEnv)
                 \<lparr>primary = [Rg 0 10, Rg 100 130], secondary = [Rg 200 215]\<rparr>
                 15 FindDeleteNONE)) = Rg 100 130"
proof -
  have first: "case LandFindFirst (primaryClass E) p1 sz fd of
        (found, rg, old, p2) \<Rightarrow>
          failoverFindFirst E fo sz fd =
            (if found then (True, rg, old, \<lparr>primary = p2, secondary = s1\<rparr>)
             else (case LandFindFirst (secondaryClass E) s1 sz fd of
                     (found', rg', old', s2) \<Rightarrow>
                       (found', rg', old', \<lparr>primary = p2, secondary = s2\<rparr>)))"
    using assms by (simp add: failoverFindFirst_def split: prod.splits)
  have last: "case LandFindLast (primaryClass E) p1 sz fd of
        (found, rg, old, p2) \<Rightarrow>
          failoverFindLast E fo sz fd =
            (if found then (True, rg, old, \<lparr>primary = p2, secondary = s1\<rparr>)
             else (case LandFindLast (secondaryClass E) s1 sz fd of
                     (found', rg', old', s2) \<Rightarrow>
                       (found', rg', old', \<lparr>primary = p2, secondary = s2\<rparr>)))"
    using assms by (simp add: failoverFindLast_def split: prod.splits)
  have largest: "case LandFindLargest (primaryClass E) p1 sz fd of
        (found, rg, old, p2) \<Rightarrow>
          failoverFindLargest E fo sz fd =
            (if found then (True, rg, old, \<lparr>primary = p2, secondary = s1\<rparr>)
             else (case LandFindLargest (secondaryClass E) s1 sz fd of
                     (found', rg', old', s2) \<Rightarrow>
                       (found', rg', old', \<lparr>primary = p2, secondary = s2\<rparr>)))"
    using assms by (simp add: failoverFindLargest_def split: prod.splits)
  have s5: "fst (snd (failoverFindLargest
                 (blockEnv crit capP capS :: (64 range list, 64 range list, 'c, 64) FailoverEnv)
                 \<lparr>primary = [Rg 0 10, Rg 100 130], secondary = [Rg 200 215]\<rparr>
                 15 FindDeleteNONE)) = Rg 100 130"
    by (simp add: failoverFindLargest_def block_defs land_defs range_defs)
  from first last largest s5 show ?thesis by blast
qed

text \<open>The scenario as the spec states it (the result is \<open>[200,215)\<close>) does not hold.\<close>

theorem failoverFindLargest_S5_counterexample:
  "fst (snd (failoverFindLargest (env64 True None)
               \<lparr>primary = [Rg 0 10, Rg 100 130], secondary = [Rg 200 215]\<rparr>
               15 FindDeleteNONE)) \<noteq> Rg 200 215"
  by (simp add: failoverFindLargest_def block_defs land_defs range_defs)

theorem failoverFind_primary_first_witness:
  "LandFlush (env64 True (Some 1)) [Rg 0 10] [Rg 200 215] = (False, [Rg 0 10], [Rg 200 215]) \<and>
   failoverFindFirst (env64 True (Some 1)) \<lparr>primary = [Rg 0 10], secondary = [Rg 200 215]\<rparr>
       15 FindDeleteNONE =
     (True, Rg 200 215, Rg 200 215, \<lparr>primary = [Rg 0 10], secondary = [Rg 200 215]\<rparr>) \<and>
   failoverFindLast (env64 True (Some 1)) \<lparr>primary = [Rg 0 10], secondary = [Rg 200 215]\<rparr>
       5 FindDeleteNONE =
     (True, Rg 0 10, Rg 0 10, \<lparr>primary = [Rg 0 10], secondary = [Rg 200 215]\<rparr>) \<and>
   failoverFindLargest (env64 True (Some 1)) \<lparr>primary = [Rg 0 10], secondary = [Rg 200 215]\<rparr>
       15 FindDeleteENTIRE =
     (True, Rg 200 215, Rg 200 215, \<lparr>primary = [Rg 0 10], secondary = []\<rparr>)"
  using failoverFind_primary_first
          [where E = "env64 True (Some 1)"
             and fo = "\<lparr>primary = [Rg 0 10], secondary = [Rg 200 215]\<rparr>"
             and flushed = False and ?p1.0 = "[Rg 0 10]" and ?s1.0 = "[Rg 200 215]"
             and sz = 15 and fd = FindDeleteNONE]
        failoverFind_primary_first
          [where E = "env64 True (Some 1)"
             and fo = "\<lparr>primary = [Rg 0 10], secondary = [Rg 200 215]\<rparr>"
             and flushed = False and ?p1.0 = "[Rg 0 10]" and ?s1.0 = "[Rg 200 215]"
             and sz = 5 and fd = FindDeleteNONE]
        failoverFind_primary_first
          [where E = "env64 True (Some 1)"
             and fo = "\<lparr>primary = [Rg 0 10], secondary = [Rg 200 215]\<rparr>"
             and flushed = False and ?p1.0 = "[Rg 0 10]" and ?s1.0 = "[Rg 200 215]"
             and sz = 15 and fd = FindDeleteENTIRE]
  by (simp add: block_defs land_defs range_defs)

subsection \<open>Find in zones\<close>

text \<open>
  C7 (as amended). With the critical checks compiled in, \<open>failoverFindInZones\<close> stops
  at its first check, before any flush or query. Without them it flushes the secondary
  into the primary and queries the primary; when the primary returns a code other than
  \<open>ResOK\<close> or does not find a range, the secondary is queried and the result code, the \<open>found\<close>
  flag and the ranges are the secondary's; otherwise they are the primary's.
\<close>

theorem failoverFindInZones_fallback:
  assumes "LandFlush E (primary fo) (secondary fo) = (flushed, p1, s1)"
    and "LandFindInZones (primaryClass E) p1 sz zoneSet high = (resP, foundP, rgP, oldP, p2)"
    and "LandFindInZones (secondaryClass E) s1 sz zoneSet high = (resS, foundS, rgS, oldS, s2)"
  shows "(critical E \<longrightarrow> failoverFindInZones E fo sz zoneSet high = None) \<and>
         (\<not> critical E \<longrightarrow>
            failoverFindInZones E fo sz zoneSet high =
              Some (if resP \<noteq> ResOK \<or> \<not> foundP
                    then (resS, foundS, rgS, oldS, \<lparr>primary = p2, secondary = s2\<rparr>)
                    else (resP, foundP, rgP, oldP, \<lparr>primary = p2, secondary = s1\<rparr>)))"
  using assms by (simp add: failoverFindInZones_def)

theorem failoverFindInZones_fallback_witness:
  "LandFlush (env64 False (Some 1)) [Rg 0 10] [Rg 200 215] = (False, [Rg 0 10], [Rg 200 215]) \<and>
   LandFindInZones (primaryClass (env64 False (Some 1))) [Rg 0 10] 15 0 False =
     (ResOK, False, Rg 0 0, Rg 0 0, [Rg 0 10]) \<and>
   LandFindInZones (secondaryClass (env64 False (Some 1))) [Rg 200 215] 15 0 False =
     (ResOK, True, Rg 200 215, Rg 200 215, [Rg 200 215]) \<and>
   \<not> critical (env64 False (Some 1)) \<and>
   failoverFindInZones (env64 False (Some 1))
       \<lparr>primary = [Rg 0 10], secondary = [Rg 200 215]\<rparr> 15 0 False =
     Some (ResOK, True, Rg 200 215, Rg 200 215,
           \<lparr>primary = [Rg 0 10], secondary = [Rg 200 215]\<rparr>)"
  using failoverFindInZones_fallback
          [where E = "env64 False (Some 1)"
             and fo = "\<lparr>primary = [Rg 0 10], secondary = [Rg 200 215]\<rparr>"
             and flushed = False and ?p1.0 = "[Rg 0 10]" and ?s1.0 = "[Rg 200 215]"
             and sz = 15 and zoneSet = 0 and high = False
             and resP = ResOK and foundP = False and rgP = "Rg 0 0" and oldP = "Rg 0 0"
             and ?p2.0 = "[Rg 0 10]"
             and resS = ResOK and foundS = True and rgS = "Rg 200 215" and oldS = "Rg 200 215"
             and ?s2.0 = "[Rg 200 215]"]
  by (simp add: block_defs land_defs range_defs)

text \<open>With the critical checks compiled in, no child is queried.\<close>

theorem failoverFindInZones_checked_counterexample:
  "failoverFindInZones (env64 True (Some 1))
       \<lparr>primary = [Rg 0 10], secondary = [Rg 200 215]\<rparr> 15 0 False = None"
  by (simp add: failoverFindInZones_def blockEnv_def)

subsection \<open>Insert with steal\<close>

text \<open>
  C8. \<open>failoverInsertSteal\<close> flushes the secondary into the primary and inserts into the
  primary only: the secondary stays as the flush left it and its class plays no part. A
  result that is returned is the primary's and is \<open>ResOK\<close> or \<open>ResFAIL\<close>; on any other
  result of the primary the operation stops at its check and returns nothing.
\<close>

theorem failoverInsertSteal_primary_only:
  assumes "LandFlush E (primary fo) (secondary fo) = (flushed, p1, s1)"
    and "LandInsertSteal (primaryClass E) p1 rangeIO = (resP, rangeReturn, rangeIO', p2)"
  shows "failoverInsertSteal E fo rangeIO =
           (if RangeCheck rangeIO \<and> (resP = ResOK \<or> resP = ResFAIL)
            then Some (resP, rangeReturn, rangeIO', \<lparr>primary = p2, secondary = s1\<rparr>)
            else None) \<and>
         (\<forall>res rr rio fo'.
            failoverInsertSteal E fo rangeIO = Some (res, rr, rio, fo') \<longrightarrow>
              (res = ResOK \<or> res = ResFAIL) \<and> res = resP \<and> secondary fo' = s1) \<and>
         failoverInsertSteal (E\<lparr>secondaryClass := S'\<rparr>) fo rangeIO =
           failoverInsertSteal E fo rangeIO"
  using assms by (auto simp add: failoverInsertSteal_def)

theorem failoverInsertSteal_primary_only_witness:
  "LandFlush (env64 True (Some 1)) [Rg 0 10] [Rg 200 215] = (False, [Rg 0 10], [Rg 200 215]) \<and>
   LandInsertSteal (primaryClass (env64 True (Some 1))) [Rg 0 10] (Rg 20 30) =
     (ResOK, Rg 20 30, Rg 20 30, [Rg 0 10, Rg 20 30]) \<and>
   failoverInsertSteal (env64 True (Some 1))
       \<lparr>primary = [Rg 0 10], secondary = [Rg 200 215]\<rparr> (Rg 20 30) =
     Some (ResOK, Rg 20 30, Rg 20 30,
           \<lparr>primary = [Rg 0 10, Rg 20 30], secondary = [Rg 200 215]\<rparr>)"
  using failoverInsertSteal_primary_only
          [where E = "env64 True (Some 1)"
             and fo = "\<lparr>primary = [Rg 0 10], secondary = [Rg 200 215]\<rparr>"
             and flushed = False and ?p1.0 = "[Rg 0 10]" and ?s1.0 = "[Rg 200 215]"
             and rangeIO = "Rg 20 30" and resP = ResOK and rangeReturn = "Rg 20 30"
             and rangeIO' = "Rg 20 30" and ?p2.0 = "[Rg 0 10, Rg 20 30]"]
  by (simp add: block_defs land_defs range_defs)

subsection \<open>Iterate\<close>

text \<open>The loop over the ranges of one land and then of another is the loop over both.\<close>

lemma iterateRanges_append:
  "iterateRanges (xs @ ys) visitor closure =
     (if fst (iterateRanges xs visitor closure)
      then iterateRanges ys visitor (snd (iterateRanges xs visitor closure))
      else (False, snd (iterateRanges xs visitor closure)))"
proof (induction xs arbitrary: closure)
  case Nil
  show ?case by simp
next
  case (Cons x xs)
  show ?case
  proof (cases "visitor x closure")
    case (Pair continue closure')
    then show ?thesis
      using Cons.IH [of closure'] by (cases continue) simp_all
  qed
qed

lemma iterateRanges_continue:
  assumes "\<forall>r c. fst (visitor r c)"
  shows "iterateRanges rs visitor closure = (True, fold (\<lambda>r c. snd (visitor r c)) rs closure)"
proof (induction rs arbitrary: closure)
  case Nil
  show ?case by simp
next
  case (Cons r rs)
  obtain b c' where v: "visitor r closure = (b, c')" by (cases "visitor r closure")
  with assms have "b" by (metis fst_conv)
  with v Cons.IH [of c'] show ?case by simp
qed

text \<open>
  C6 (as amended). \<open>failoverIterate\<close> iterates over the primary and, only when that
  iteration was not stopped by the visitor, over the secondary. Its flag is the
  conjunction of the flag of the primary's iteration and the flag of the secondary's
  iteration continued from the closure the primary left. When the primary's flag is false
  the secondary is not iterated at all. For children whose iteration visits their ranges
  in order until the visitor returns false, the Failover visits the ranges of the primary
  followed by those of the secondary until the visitor returns false; a visitor that
  always continues is shown every range of the primary and then every range of the
  secondary. With \<open>[0,10)\<close> in the primary and \<open>[10,20)\<close> in the secondary the counting
  visitor is called twice.
\<close>

theorem failoverIterate_visits:
  fixes E :: "('p, 's, 'c, 'w::len) FailoverEnv"
  shows
    "fst (failoverIterate E fo visitor closure) =
       (fst (LandIterate (primaryClass E) (primary fo) visitor closure) \<and>
        fst (LandIterate (secondaryClass E) (secondary fo) visitor
               (fst (snd (LandIterate (primaryClass E) (primary fo) visitor closure))))) \<and>
     (\<not> fst (LandIterate (primaryClass E) (primary fo) visitor closure) \<longrightarrow>
        failoverIterate E fo visitor closure =
          (False, fst (snd (LandIterate (primaryClass E) (primary fo) visitor closure)),
           \<lparr>primary = snd (snd (LandIterate (primaryClass E) (primary fo) visitor closure)),
              secondary = secondary fo\<rparr>)) \<and>
     (land_iterates (primaryClass E) rangesP \<and> land_iterates (secondaryClass E) rangesS \<longrightarrow>
        failoverIterate E fo visitor closure =
          (fst (iterateRanges (rangesP (primary fo) @ rangesS (secondary fo)) visitor closure),
           snd (iterateRanges (rangesP (primary fo) @ rangesS (secondary fo)) visitor closure),
           fo)) \<and>
     (land_iterates (primaryClass E) rangesP \<and> land_iterates (secondaryClass E) rangesS \<and>
      (\<forall>r c. fst (visitor r c)) \<longrightarrow>
        failoverIterate E fo visitor closure =
          (True,
           fold (\<lambda>r c. snd (visitor r c)) (rangesP (primary fo) @ rangesS (secondary fo)) closure,
           fo)) \<and>
     fst (snd (failoverIterate (blockEnv crit capP capS)
                 \<lparr>primary = [Rg 0 10], secondary = [Rg 10 20]\<rparr> countVisitor 0)) = 2"
proof -
  have flags: "fst (failoverIterate E fo visitor closure) =
       (fst (LandIterate (primaryClass E) (primary fo) visitor closure) \<and>
        fst (LandIterate (secondaryClass E) (secondary fo) visitor
               (fst (snd (LandIterate (primaryClass E) (primary fo) visitor closure)))))"
    by (simp add: failoverIterate_def split: prod.splits)
  have stopped: "\<not> fst (LandIterate (primaryClass E) (primary fo) visitor closure) \<longrightarrow>
        failoverIterate E fo visitor closure =
          (False, fst (snd (LandIterate (primaryClass E) (primary fo) visitor closure)),
           \<lparr>primary = snd (snd (LandIterate (primaryClass E) (primary fo) visitor closure)),
              secondary = secondary fo\<rparr>)"
    by (simp add: failoverIterate_def split: prod.splits)
  have both: "failoverIterate E fo visitor closure =
          (fst (iterateRanges (rangesP (primary fo) @ rangesS (secondary fo)) visitor closure),
           snd (iterateRanges (rangesP (primary fo) @ rangesS (secondary fo)) visitor closure),
           fo)"
    if "land_iterates (primaryClass E) rangesP" "land_iterates (secondaryClass E) rangesS"
    using that
    by (simp add: failoverIterate_def land_iterates_def iterateRanges_append)
  have continue: "failoverIterate E fo visitor closure =
          (True,
           fold (\<lambda>r c. snd (visitor r c)) (rangesP (primary fo) @ rangesS (secondary fo)) closure,
           fo)"
    if "land_iterates (primaryClass E) rangesP" "land_iterates (secondaryClass E) rangesS"
      "\<forall>r c. fst (visitor r c)"
    using both [OF that(1,2)] iterateRanges_continue [OF that(3)] by simp
  have s6: "fst (snd (failoverIterate (blockEnv crit capP capS)
                 \<lparr>primary = [Rg 0 10], secondary = [Rg 10 20]\<rparr> countVisitor 0)) = 2"
    by (simp add: failoverIterate_def block_defs land_defs countVisitor_def)
  from flags stopped both continue s6 show ?thesis by blast
qed

text \<open>A visitor that stops at the first range is never shown the range of the secondary.\<close>

theorem failoverIterate_stop_counterexample:
  "failoverIterate (blockEnv True None None)
       \<lparr>primary = [Rg 0 10], secondary = [Rg 10 20]\<rparr> stopVisitor [] =
     (False, [Rg 0 10], \<lparr>primary = [Rg 0 10], secondary = [Rg 10 20]\<rparr>) \<and>
   Rg 10 20 \<notin> set (fst (snd (failoverIterate (blockEnv True None None)
       \<lparr>primary = [Rg 0 10], secondary = [Rg 10 20]\<rparr> stopVisitor [])))"
  by (simp add: failoverIterate_def block_defs land_defs stopVisitor_def range_defs)

lemma blockLand_iterates: "land_iterates (blockLand cap inZones) (\<lambda>bs. bs)"
  by (simp add: land_iterates_def LandIterate_def blockLand_def blockIterate_def)

theorem failoverIterate_visits_witness:
  "land_iterates (primaryClass logEnv64) (\<lambda>bs. bs) \<and>
   land_iterates (secondaryClass logEnv64) (\<lambda>bs. bs) \<and>
   (\<forall>r c. fst (logVisitor r c)) \<and>
   failoverIterate logEnv64
       \<lparr>primary = [Rg 0 10, Rg 30 40], secondary = [Rg 10 20]\<rparr> logVisitor [] =
     (True, [Rg 0 10, Rg 30 40, Rg 10 20],
      \<lparr>primary = [Rg 0 10, Rg 30 40], secondary = [Rg 10 20]\<rparr>)"
proof -
  have p: "land_iterates (primaryClass logEnv64) (\<lambda>bs. bs)"
    by (simp add: blockEnv_def blockLand_iterates)
  have s: "land_iterates (secondaryClass logEnv64) (\<lambda>bs. bs)"
    by (simp add: blockEnv_def blockLand_iterates)
  have v: "\<forall>r c. fst (logVisitor r c)"
    by (simp add: logVisitor_def)
  from failoverIterate_visits
         [where E = logEnv64
            and fo = "\<lparr>primary = [Rg 0 10, Rg 30 40], secondary = [Rg 10 20]\<rparr>"
            and visitor = logVisitor and closure = "[]"
            and rangesP = "\<lambda>bs. bs" and rangesS = "\<lambda>bs. bs"] p s v
  show ?thesis by (simp add: logVisitor_def)
qed

subsection \<open>Operations that do not depend on the flush\<close>

lemma failoverDeleteFragment_other_flush:
  "failoverDeleteFragment (E\<lparr>LandFlush := f\<rparr>) res p s fragment =
     failoverDeleteFragment E res p s fragment"
  by (simp add: failoverDeleteFragment_def cong: prod.case_cong if_cong)

lemma failoverDeleteRecover_other_flush:
  "failoverDeleteRecover (E\<lparr>LandFlush := f\<rparr>) res oldRange rng p s =
     failoverDeleteRecover E res oldRange rng p s"
  by (simp add: failoverDeleteRecover_def failoverDeleteFragment_other_flush
        cong: prod.case_cong if_cong option.case_cong)

subsection \<open>Iterate leaves the children as they are\<close>

text \<open>
  C10. \<open>failoverIterate\<close> calls no flush: its result is the same whatever \<open>LandFlush\<close> is.
  Whatever the iterations of the two children leave unchanged (\<open>obsP\<close> of the primary, \<open>obsS\<close>
  of the secondary: their ranges, for children whose iteration only reads), the Failover's
  iteration leaves unchanged too. Insert, delete, delete with steal and the finds differ:
  each is the flush of the secondary into the primary followed by the same operation
  without a flush.
\<close>

theorem failoverIterate_frame:
  fixes E :: "('p, 's, 'c, 'w::len) FailoverEnv"
  assumes P: "\<forall>p c. obsP (snd (snd (LandIterate (primaryClass E) p visitor c))) = obsP p"
    and S: "\<forall>s c. obsS (snd (snd (LandIterate (secondaryClass E) s visitor c))) = obsS s"
  shows
    "obsP (primary (snd (snd (failoverIterate E fo visitor closure)))) = obsP (primary fo) \<and>
     obsS (secondary (snd (snd (failoverIterate E fo visitor closure)))) = obsS (secondary fo) \<and>
     failoverIterate (E\<lparr>LandFlush := flush'\<rparr>) fo visitor closure =
       failoverIterate E fo visitor closure \<and>
     (LandFlush E (primary fo) (secondary fo) = (flushed, p1, s1) \<longrightarrow>
        failoverInsert E fo rng =
          failoverInsert (E\<lparr>LandFlush := \<lambda>p s. (True, p, s)\<rparr>)
            \<lparr>primary = p1, secondary = s1\<rparr> rng \<and>
        failoverDelete E fo rng =
          failoverDelete (E\<lparr>LandFlush := \<lambda>p s. (True, p, s)\<rparr>)
            \<lparr>primary = p1, secondary = s1\<rparr> rng \<and>
        failoverDeleteSteal E fo rng =
          failoverDeleteSteal (E\<lparr>LandFlush := \<lambda>p s. (True, p, s)\<rparr>)
            \<lparr>primary = p1, secondary = s1\<rparr> rng \<and>
        failoverFindFirst E fo sz fd =
          failoverFindFirst (E\<lparr>LandFlush := \<lambda>p s. (True, p, s)\<rparr>)
            \<lparr>primary = p1, secondary = s1\<rparr> sz fd \<and>
        failoverFindLast E fo sz fd =
          failoverFindLast (E\<lparr>LandFlush := \<lambda>p s. (True, p, s)\<rparr>)
            \<lparr>primary = p1, secondary = s1\<rparr> sz fd \<and>
        failoverFindLargest E fo sz fd =
          failoverFindLargest (E\<lparr>LandFlush := \<lambda>p s. (True, p, s)\<rparr>)
            \<lparr>primary = p1, secondary = s1\<rparr> sz fd \<and>
        failoverFindInZones E fo sz zoneSet high =
          failoverFindInZones (E\<lparr>LandFlush := \<lambda>p s. (True, p, s)\<rparr>)
            \<lparr>primary = p1, secondary = s1\<rparr> sz zoneSet high)"
proof -
  obtain b1 c1 pa where
    p: "LandIterate (primaryClass E) (primary fo) visitor closure = (b1, c1, pa)"
    by (cases "LandIterate (primaryClass E) (primary fo) visitor closure") auto
  obtain b2 c2 sa where
    s: "LandIterate (secondaryClass E) (secondary fo) visitor c1 = (b2, c2, sa)"
    by (cases "LandIterate (secondaryClass E) (secondary fo) visitor c1") auto
  from P p have pa: "obsP pa = obsP (primary fo)"
    by (metis snd_conv)
  from S s have sa: "obsS sa = obsS (secondary fo)"
    by (metis snd_conv)
  have frame:
    "obsP (primary (snd (snd (failoverIterate E fo visitor closure)))) = obsP (primary fo) \<and>
     obsS (secondary (snd (snd (failoverIterate E fo visitor closure)))) = obsS (secondary fo)"
    using p s pa sa by (simp add: failoverIterate_def)
  have noflush: "failoverIterate (E\<lparr>LandFlush := flush'\<rparr>) fo visitor closure =
       failoverIterate E fo visitor closure"
    by (simp add: failoverIterate_def split: prod.splits)
  have others:
    "LandFlush E (primary fo) (secondary fo) = (flushed, p1, s1) \<longrightarrow>
       (failoverInsert E fo rng =
          failoverInsert (E\<lparr>LandFlush := \<lambda>p s. (True, p, s)\<rparr>)
            \<lparr>primary = p1, secondary = s1\<rparr> rng \<and>
        failoverDelete E fo rng =
          failoverDelete (E\<lparr>LandFlush := \<lambda>p s. (True, p, s)\<rparr>)
            \<lparr>primary = p1, secondary = s1\<rparr> rng \<and>
        failoverDeleteSteal E fo rng =
          failoverDeleteSteal (E\<lparr>LandFlush := \<lambda>p s. (True, p, s)\<rparr>)
            \<lparr>primary = p1, secondary = s1\<rparr> rng \<and>
        failoverFindFirst E fo sz fd =
          failoverFindFirst (E\<lparr>LandFlush := \<lambda>p s. (True, p, s)\<rparr>)
            \<lparr>primary = p1, secondary = s1\<rparr> sz fd \<and>
        failoverFindLast E fo sz fd =
          failoverFindLast (E\<lparr>LandFlush := \<lambda>p s. (True, p, s)\<rparr>)
            \<lparr>primary = p1, secondary = s1\<rparr> sz fd \<and>
        failoverFindLargest E fo sz fd =
          failoverFindLargest (E\<lparr>LandFlush := \<lambda>p s. (True, p, s)\<rparr>)
            \<lparr>primary = p1, secondary = s1\<rparr> sz fd \<and>
        failoverFindInZones E fo sz zoneSet high =
          failoverFindInZones (E\<lparr>LandFlush := \<lambda>p s. (True, p, s)\<rparr>)
            \<lparr>primary = p1, secondary = s1\<rparr> sz zoneSet high)"
    by (simp add: failoverInsert_def failoverDelete_def failoverDeleteSteal_def
          failoverFindFirst_def failoverFindLast_def failoverFindLargest_def
          failoverFindInZones_def failoverDeleteRecover_other_flush
          cong: prod.case_cong if_cong option.case_cong)
  from conjunct1 [OF frame] conjunct2 [OF frame] noflush others
  show ?thesis by blast
qed

theorem failoverIterate_frame_witness:
  "(\<forall>p c. blockFree (snd (snd (LandIterate (primaryClass logEnv64) p logVisitor c))) =
           blockFree p) \<and>
   (\<forall>s c. blockFree (snd (snd (LandIterate (secondaryClass logEnv64) s logVisitor c))) =
           blockFree s) \<and>
   blockFree (primary (snd (snd (failoverIterate logEnv64
       \<lparr>primary = [Rg 0 10], secondary = [Rg 10 20]\<rparr> logVisitor [])))) = blockFree [Rg 0 10] \<and>
   blockFree (secondary (snd (snd (failoverIterate logEnv64
       \<lparr>primary = [Rg 0 10], secondary = [Rg 10 20]\<rparr> logVisitor [])))) = blockFree [Rg 10 20] \<and>
   snd (snd (failoverIterate logEnv64
       \<lparr>primary = [Rg 0 10], secondary = [Rg 10 20]\<rparr> logVisitor [])) =
     \<lparr>primary = [Rg 0 10], secondary = [Rg 10 20]\<rparr> \<and>
   failoverInsert logEnv64 \<lparr>primary = [Rg 0 10], secondary = [Rg 10 20]\<rparr> (Rg 20 30) =
     Some (ResOK, Rg 20 30, \<lparr>primary = [Rg 0 10, Rg 10 20, Rg 20 30], secondary = []\<rparr>)"
proof -
  have p: "\<forall>p c. blockFree (snd (snd (LandIterate (primaryClass logEnv64) p logVisitor c))) =
           blockFree p"
    by (simp add: block_defs land_defs)
  have s: "\<forall>s c. blockFree (snd (snd (LandIterate (secondaryClass logEnv64) s logVisitor c))) =
           blockFree s"
    by (simp add: block_defs land_defs)
  have i: "failoverInsert logEnv64 \<lparr>primary = [Rg 0 10], secondary = [Rg 10 20]\<rparr> (Rg 20 30) =
     Some (ResOK, Rg 20 30, \<lparr>primary = [Rg 0 10, Rg 10 20, Rg 20 30], secondary = []\<rparr>)"
    by (simp add: failoverInsert_def block_defs land_defs range_defs)
  have e: "snd (snd (failoverIterate logEnv64
       \<lparr>primary = [Rg 0 10], secondary = [Rg 10 20]\<rparr> logVisitor [])) =
     \<lparr>primary = [Rg 0 10], secondary = [Rg 10 20]\<rparr>"
    by (simp add: failoverIterate_def block_defs land_defs logVisitor_def)
  from failoverIterate_frame
         [where E = logEnv64 and obsP = blockFree and obsS = blockFree
            and visitor = logVisitor and closure = "[]"
            and fo = "\<lparr>primary = [Rg 0 10], secondary = [Rg 10 20]\<rparr>", OF p s] p s i e
  show ?thesis by simp
qed

section \<open>The land of blocks keeps the contract of a child land\<close>

text \<open>
  The land of blocks is a Land in the sense of the contract above, with \<open>blockInv\<close> as its
  invariant and \<open>blockFree\<close> as the addresses it holds; without a bound it never refuses a
  range that is free, and the flush between two lands of blocks moves addresses without
  adding or losing any.
\<close>

lemma addrs_empty_iff: "addrs r = {} \<longleftrightarrow> \<not> base r < limit r"
  by (auto simp: addrs_def)

lemma addrs_overlap:
  "base a < limit a \<Longrightarrow> base b < limit b \<Longrightarrow>
     addrs a \<inter> addrs b \<noteq> {} \<longleftrightarrow> RangesOverlap a b"
proof
  assume "addrs a \<inter> addrs b \<noteq> {}"
  then obtain x where "x \<in> addrs a" "x \<in> addrs b" by blast
  then show "RangesOverlap a b"
    by (auto simp: addrs_def RangesOverlap_def)
next
  assume a: "base a < limit a" and b: "base b < limit b" and o: "RangesOverlap a b"
  then have "max (base a) (base b) \<in> addrs a \<inter> addrs b"
    by (auto simp: addrs_def RangesOverlap_def max_def)
  then show "addrs a \<inter> addrs b \<noteq> {}" by blast
qed

lemma RangesOverlap_sym: "RangesOverlap a b = RangesOverlap b a"
  by (auto simp: RangesOverlap_def)

lemma set_insertBlock: "set (insertBlock r bs) = insert r (set bs)"
  by (induction bs) auto

lemma distinct_insertBlock: "distinct bs \<Longrightarrow> r \<notin> set bs \<Longrightarrow> distinct (insertBlock r bs)"
  by (induction bs) (auto simp: set_insertBlock)

lemma RangesOverlap_self: "base r < limit r \<Longrightarrow> RangesOverlap r r"
  by (simp add: RangesOverlap_def)

lemma blockFree_insertBlock: "blockFree (insertBlock r bs) = blockFree bs \<union> addrs r"
  by (auto simp: blockFree_def set_insertBlock)

lemma blockInv_insertBlock:
  assumes "blockInv bs" "base r < limit r" "\<not> list_ex (\<lambda>b. RangesOverlap b r) bs"
  shows "blockInv (insertBlock r bs)"
proof -
  have "r \<notin> set bs"
    using assms(2,3) RangesOverlap_self [of r] by (auto simp: list_ex_iff)
  then show ?thesis
    using assms
    by (auto simp: blockInv_def set_insertBlock distinct_insertBlock list_ex_iff RangesOverlap_sym)
qed

lemma blockFree_overlap:
  assumes "blockInv bs" "base r < limit r"
  shows "addrs r \<inter> blockFree bs \<noteq> {} \<longleftrightarrow> list_ex (\<lambda>b. RangesOverlap b r) bs"
proof -
  have "addrs r \<inter> blockFree bs \<noteq> {} \<longleftrightarrow> (\<exists>b \<in> set bs. addrs r \<inter> addrs b \<noteq> {})"
    by (auto simp: blockFree_def)
  also have "\<dots> \<longleftrightarrow> (\<exists>b \<in> set bs. RangesOverlap b r)"
    using assms by (auto simp: blockInv_def addrs_overlap RangesOverlap_sym)
  finally show ?thesis by (simp add: list_ex_iff)
qed

lemma blockLand_insert_ok: "land_insert_ok (blockLand cap inZones) blockInv blockFree"
  unfolding land_insert_ok_def
proof (intro allI impI)
  fix s :: "'a range list" and r :: "'a range"
  assume a: "blockInv s \<and> base r < limit r"
  show "case LandInsert (blockLand cap inZones) s r of
          (res, rangeReturn, s') \<Rightarrow>
            blockInv s' \<and>
            (if res = ResOK then blockFree s' = blockFree s \<union> addrs r
             else blockFree s' = blockFree s) \<and>
            (res = ResFAIL \<longrightarrow> addrs r \<inter> blockFree s \<noteq> {})"
    using a blockFree_overlap [of s r]
    by (simp add: LandInsert_def blockLand_def blockInsert_def blockFree_insertBlock
          blockInv_insertBlock)
qed

lemma blockLand_insert_total: "land_insert_total (blockLand None inZones) blockInv blockFree"
  unfolding land_insert_total_def
proof (intro allI impI)
  fix s :: "'a range list" and r :: "'a range"
  assume a: "blockInv s \<and> base r < limit r \<and> addrs r \<inter> blockFree s = {}"
  then show "fst (LandInsert (blockLand None inZones) s r) = ResOK"
    using blockFree_overlap [of s r]
    by (simp add: LandInsert_def blockLand_def blockInsert_def blockFull_def)
qed

lemma distinct_replaceBlock:
  assumes "distinct bs" "distinct fs" "set fs \<inter> (set bs - {b}) = {}"
  shows "distinct (replaceBlock b fs bs)"
  using assms
proof (induction bs)
  case Nil
  then show ?case by (simp add: replaceBlock_def)
next
  case (Cons x xs)
  have step: "replaceBlock b fs (x # xs) = (if x = b then fs else [x]) @ replaceBlock b fs xs"
    by (simp add: replaceBlock_def)
  have set_rest: "set (replaceBlock b fs xs) \<subseteq> (set xs - {b}) \<union> set fs"
    by (auto simp: replaceBlock_def split: if_splits)
  have ih: "distinct (replaceBlock b fs xs)"
    using Cons by auto
  show ?case
  proof (cases "x = b")
    case True
    then have "b \<notin> set xs" using Cons.prems(1) by simp
    then have "replaceBlock b fs xs = xs"
      by (induction xs) (auto simp: replaceBlock_def)
    with True Cons.prems show ?thesis
      unfolding step by auto
  next
    case False
    then have "x \<notin> set (replaceBlock b fs xs)"
      using set_rest Cons.prems by auto
    with False ih show ?thesis
      unfolding step by simp
  qed
qed

lemma set_replaceBlock:
  "set (replaceBlock b fs bs) = (set bs - {b}) \<union> (if b \<in> set bs then set fs else {})"
  by (auto simp: replaceBlock_def split: if_splits)

lemma fragments_addrs:
  assumes "RangesNest b r" "RangeCheck r"
  shows "(\<Union>f \<in> set (fragments b r). addrs f) = addrs b - addrs r"
  using assms
  by (auto simp: fragments_def addrs_def range_defs)

lemma fragments_nonempty:
  assumes "RangesNest b r" "RangeCheck r" "f \<in> set (fragments b r)"
  shows "base f < limit f"
  using assms
  by (auto simp: fragments_def range_defs split: if_splits)

lemma fragments_within:
  assumes "RangesNest b r" "RangeCheck r" "f \<in> set (fragments b r)"
  shows "addrs f \<subseteq> addrs b"
  using assms
  by (auto simp: fragments_def addrs_def range_defs split: if_splits)

lemma fragments_disjoint:
  assumes "RangesNest b r" "RangeCheck r" "f \<in> set (fragments b r)" "g \<in> set (fragments b r)"
    "f \<noteq> g"
  shows "\<not> RangesOverlap f g"
  using assms
  by (auto simp: fragments_def range_defs split: if_splits)

lemma blockInv_disjoint:
  assumes "blockInv bs" "b \<in> set bs" "c \<in> set bs" "b \<noteq> c"
  shows "addrs b \<inter> addrs c = {}"
  using assms addrs_overlap [of b c] by (auto simp: blockInv_def)

lemma blockFree_remove:
  assumes "blockInv bs" "b \<in> set bs"
  shows "(\<Union>c \<in> set bs - {b}. addrs c) = blockFree bs - addrs b"
proof -
  have "\<And>c. c \<in> set bs - {b} \<Longrightarrow> addrs c \<inter> addrs b = {}"
    using assms blockInv_disjoint by blast
  then show ?thesis
    using assms(2) by (auto simp: blockFree_def)
qed

lemma blockFree_replaceBlock:
  assumes "blockInv bs" "b \<in> set bs" "RangesNest b r" "RangeCheck r"
  shows "blockFree (replaceBlock b (fragments b r) bs) = blockFree bs - addrs r"
proof -
  have sub: "addrs r \<subseteq> addrs b"
    using assms(3,4) by (auto simp: addrs_def range_defs)
  have "blockFree (replaceBlock b (fragments b r) bs) =
          (\<Union>c \<in> set bs - {b}. addrs c) \<union> (\<Union>f \<in> set (fragments b r). addrs f)"
    using assms(2) by (simp add: blockFree_def set_replaceBlock)
  also have "\<dots> = (blockFree bs - addrs b) \<union> (addrs b - addrs r)"
    using assms by (simp add: blockFree_remove fragments_addrs)
  also have "\<dots> = blockFree bs - addrs r"
    using sub assms(2) by (auto simp: blockFree_def)
  finally show ?thesis .
qed

lemma fragments_distinct:
  assumes "RangesNest b r" "RangeCheck r"
  shows "distinct (fragments b r)"
  using assms
  by (auto simp: fragments_def range_defs)

lemma blockInv_replaceBlock:
  assumes inv: "blockInv bs" and b: "b \<in> set bs" and nest: "RangesNest b r" and chk: "RangeCheck r"
  shows "blockInv (replaceBlock b (fragments b r) bs)"
proof -
  let ?fs = "fragments b r"
  have ne: "base c < limit c" if "c \<in> set bs" for c
    using inv that by (simp add: blockInv_def)
  have fne: "base f < limit f" if "f \<in> set ?fs" for f
    using fragments_nonempty [OF nest chk that] .
  have frag_other: "\<not> RangesOverlap f c"
    if "f \<in> set ?fs" "c \<in> set bs" "c \<noteq> b" for f c
  proof -
    have "addrs f \<inter> addrs c = {}"
      using fragments_within [OF nest chk that(1)] blockInv_disjoint [OF inv b that(2)] that(3)
      by blast
    then show "\<not> RangesOverlap f c"
      using addrs_overlap [of f c] fne [OF that(1)] ne [OF that(2)]
      by blast
  qed
  have apart: "set ?fs \<inter> (set bs - {b}) = {}"
  proof (rule ccontr)
    assume "set ?fs \<inter> (set bs - {b}) \<noteq> {}"
    then obtain f where f: "f \<in> set ?fs" "f \<in> set bs" "f \<noteq> b" by blast
    from frag_other [OF f] RangesOverlap_self [OF fne [OF f(1)]] show False by simp
  qed
  have sets: "set (replaceBlock b ?fs bs) = (set bs - {b}) \<union> set ?fs"
    using b by (simp add: set_replaceBlock)
  have d: "distinct (replaceBlock b ?fs bs)"
    using inv fragments_distinct [OF nest chk] apart
    by (simp add: blockInv_def distinct_replaceBlock)
  have n: "\<forall>c \<in> set (replaceBlock b ?fs bs). base c < limit c"
    unfolding sets using ne fne by blast
  have pw: "\<not> RangesOverlap x y"
    if "x \<in> set (replaceBlock b ?fs bs)" "y \<in> set (replaceBlock b ?fs bs)" "x \<noteq> y" for x y
  proof -
    from that(1) have x: "x \<in> set bs \<and> x \<noteq> b \<or> x \<in> set ?fs"
      unfolding sets by blast
    from that(2) have y: "y \<in> set bs \<and> y \<noteq> b \<or> y \<in> set ?fs"
      unfolding sets by blast
    from x y show ?thesis
    proof (elim disjE conjE)
      assume "x \<in> set bs" "y \<in> set bs"
      with inv that(3) show ?thesis by (simp add: blockInv_def)
    next
      assume "x \<in> set bs" "x \<noteq> b" "y \<in> set ?fs"
      then show ?thesis
        using frag_other [of y x] by (simp add: RangesOverlap_sym)
    next
      assume "x \<in> set ?fs" "y \<in> set bs" "y \<noteq> b"
      then show ?thesis
        using frag_other [of x y] by simp
    next
      assume "x \<in> set ?fs" "y \<in> set ?fs"
      with that(3) show ?thesis
        using fragments_disjoint [OF nest chk] by blast
    qed
  qed
  from d n pw show ?thesis
    unfolding blockInv_def by blast
qed

lemma blockDelete_find:
  "blockDelete cap bs r =
     (case find (\<lambda>b. RangesNest b r) bs of
        None \<Rightarrow> (ResFAIL, r, bs)
      | Some b \<Rightarrow>
          if \<not> RangeIsEmpty (RangeInit (base b) (base r)) \<and>
             \<not> RangeIsEmpty (RangeInit (limit r) (limit b)) \<and> blockFull cap bs
          then (ResALLOC_FAILURE, b, bs)
          else (ResOK, b, replaceBlock b (fragments b r) bs))"
  by (simp add: blockDelete_def fragments_def Let_def split: option.splits)

lemma blockLand_delete_ok: "land_delete_ok (blockLand cap inZones) blockInv blockFree"
  unfolding land_delete_ok_def
proof (intro allI impI)
  fix s :: "'a range list" and r :: "'a range"
  assume a: "blockInv s \<and> RangeCheck r"
  show "case LandDelete (blockLand cap inZones) s r of
          (res, oldRange, s') \<Rightarrow>
            blockInv s' \<and>
            (if res = ResOK then blockFree s' = blockFree s - addrs r
             else blockFree s' = blockFree s) \<and>
            (res \<noteq> ResFAIL \<longrightarrow> RangesNest oldRange r \<and> addrs oldRange \<subseteq> blockFree s)"
  proof (cases "find (\<lambda>b. RangesNest b r) s")
    case None
    then show ?thesis
      using a by (simp add: LandDelete_def blockLand_def blockDelete_find)
  next
    case (Some b)
    then have b: "b \<in> set s" and nest: "RangesNest b r"
      by (auto simp: find_Some_iff)
    have sub: "addrs b \<subseteq> blockFree s"
      using b by (auto simp: blockFree_def)
    show ?thesis
      using a Some b nest sub blockFree_replaceBlock [of s b r] blockInv_replaceBlock [of s b r]
      by (simp add: LandDelete_def blockLand_def blockDelete_find)
  qed
qed

lemma find_whole_block:
  assumes "blockInv bs" "b \<in> set bs"
  shows "find (\<lambda>c. RangesNest c b) bs = Some b"
proof -
  have ne: "base b < limit b"
    using assms by (simp add: blockInv_def)
  have only: "c = b" if "c \<in> set bs" "RangesNest c b" for c
  proof (rule ccontr)
    assume "c \<noteq> b"
    then have "\<not> RangesOverlap c b"
      using assms that(1) by (auto simp: blockInv_def)
    with that(2) ne show False
      by (auto simp: range_defs)
  qed
  have "RangesNest b b" by (simp add: RangesNest_def)
  with assms(2) obtain c where c: "find (\<lambda>c. RangesNest c b) bs = Some c"
    by (cases "find (\<lambda>c. RangesNest c b) bs") (auto simp: find_None_iff)
  then have "c \<in> set bs" "RangesNest c b"
    by (auto simp: find_Some_iff)
  with only c show ?thesis by simp
qed

lemma blockLand_delete_whole_ok: "land_delete_whole_ok (blockLand cap inZones) blockInv"
  unfolding land_delete_whole_ok_def
proof (intro allI impI)
  fix s :: "'a range list" and r :: "'a range"
  assume a: "blockInv s \<and> RangeCheck r"
  show "case LandDelete (blockLand cap inZones) s r of
          (res, oldRange, s') \<Rightarrow>
            res \<noteq> ResOK \<and> res \<noteq> ResFAIL \<longrightarrow>
              (case LandDelete (blockLand cap inZones) s' oldRange of
                 (res1, dummyRange, s'') \<Rightarrow> res1 = ResOK \<and> dummyRange = oldRange)"
  proof (cases "find (\<lambda>b. RangesNest b r) s")
    case None
    then show ?thesis
      by (simp add: LandDelete_def blockLand_def blockDelete_find)
  next
    case (Some b)
    then have b: "b \<in> set s"
      by (auto simp: find_Some_iff)
    show ?thesis
      using a Some find_whole_block [of s b] b
      by (simp add: LandDelete_def blockLand_def blockDelete_find range_defs)
  qed
qed

lemma blockInsert_effect:
  assumes "blockInv s" "base r < limit r" "blockInsert cap s r = (res, rangeReturn, s')"
  shows "blockInv s'" "res = ResOK \<Longrightarrow> blockFree s' = blockFree s \<union> addrs r"
    "res \<noteq> ResOK \<Longrightarrow> s' = s"
  using assms
  by (auto simp: blockInsert_def blockFree_insertBlock blockInv_insertBlock split: if_splits)

lemma blockInv_Cons:
  assumes "blockInv (r # rs)"
  shows "blockInv rs" "base r < limit r" "addrs r \<inter> blockFree rs = {}"
proof -
  show "blockInv rs" "base r < limit r"
    using assms by (auto simp: blockInv_def)
  have "addrs r \<inter> addrs c = {}" if "c \<in> set rs" for c
  proof -
    from assms that have "c \<noteq> r" by (auto simp: blockInv_def)
    then show ?thesis
      using blockInv_disjoint [OF assms, of r c] that by simp
  qed
  then show "addrs r \<inter> blockFree rs = {}"
    by (auto simp: blockFree_def)
qed

lemma blockInv_ConsI:
  assumes "blockInv rs" "base r < limit r" "addrs r \<inter> blockFree rs = {}"
  shows "blockInv (r # rs)"
proof -
  have no: "\<not> RangesOverlap r c" if "c \<in> set rs" for c
  proof -
    have "addrs r \<inter> addrs c = {}"
      using assms(3) that by (auto simp: blockFree_def)
    moreover have "base c < limit c"
      using assms(1) that by (simp add: blockInv_def)
    ultimately show ?thesis
      using addrs_overlap [of r c] assms(2) by blast
  qed
  have "r \<notin> set rs"
    using no RangesOverlap_self [OF assms(2)] by blast
  with no assms(1,2) show ?thesis
    by (auto simp: blockInv_def RangesOverlap_sym)
qed

lemma blockFlush_effect:
  assumes "blockInv p" "blockInv s" "blockFlush (blockInsert cap) p s = (flushed, p', s')"
  shows "blockInv p' \<and> blockInv s' \<and> blockFree s' \<subseteq> blockFree s \<and>
         blockFree p' \<union> blockFree s' = blockFree p \<union> blockFree s \<and>
         (blockFree p \<inter> blockFree s = {} \<longrightarrow> blockFree p' \<inter> blockFree s' = {})"
  using assms
proof (induction s arbitrary: p flushed p' s')
  case Nil
  then show ?case by simp
next
  case (Cons r rs)
  note inv = blockInv_Cons [OF Cons.prems(2)]
  obtain res rangeReturn p1 where ins: "blockInsert cap p r = (res, rangeReturn, p1)"
    by (cases "blockInsert cap p r") auto
  note eff = blockInsert_effect [OF Cons.prems(1) inv(2) ins]
  obtain fl p2 rs' where rest: "blockFlush (blockInsert cap) p1 rs = (fl, p2, rs')"
    by (cases "blockFlush (blockInsert cap) p1 rs") auto
  note ih = Cons.IH [OF eff(1) inv(1) rest]
  show ?case
  proof (cases "res = ResOK")
    case True
    with Cons.prems(3) ins rest have out: "p' = p2" "s' = rs'" by simp_all
    have free1: "blockFree p1 = blockFree p \<union> addrs r"
      using eff(2) True by simp
    have "blockFree (r # rs) = addrs r \<union> blockFree rs"
      by (simp add: blockFree_def)
    with ih free1 inv(3) show ?thesis
      unfolding out by auto
  next
    case False
    with Cons.prems(3) ins rest have out: "p' = p2" "s' = r # rs'" by simp_all
    have same: "p1 = p"
      using eff(3) False by simp
    have cons: "blockFree (r # xs) = addrs r \<union> blockFree xs" for xs
      by (simp add: blockFree_def)
    have apart: "addrs r \<inter> blockFree rs' = {}"
      using ih inv(3) by blast
    have "blockInv (r # rs')"
      using blockInv_ConsI [OF _ inv(2) apart] ih by simp
    with ih same inv(3) show ?thesis
      unfolding out cons by auto
  qed
qed

lemma blockFlush_ok:
  "flush_ok (blockFlush (blockInsert cap)) blockInv blockFree blockInv blockFree"
  unfolding flush_ok_def
proof (intro allI impI)
  fix p s :: "'a range list"
  assume a: "blockInv p \<and> blockInv s"
  obtain flushed p' s' where f: "blockFlush (blockInsert cap) p s = (flushed, p', s')"
    by (cases "blockFlush (blockInsert cap) p s") auto
  from blockFlush_effect [OF _ _ f] a
  show "case blockFlush (blockInsert cap) p s of
          (flushed, p', s') \<Rightarrow>
            blockInv p' \<and> blockInv s' \<and>
            blockFree p' \<union> blockFree s' = blockFree p \<union> blockFree s \<and>
            (blockFree p \<inter> blockFree s = {} \<longrightarrow> blockFree p' \<inter> blockFree s' = {})"
    by (simp add: f)
qed

section \<open>Delete when the primary finds the range and cannot delete it\<close>

subsection \<open>What the contract of a child gives at one call\<close>

lemma land_insert_okD:
  assumes "land_insert_ok L invar free" "invar s" "base r < limit r"
    "LandInsert L s r = (res, rangeReturn, s')"
  shows "invar s'" "res = ResOK \<Longrightarrow> free s' = free s \<union> addrs r"
    "res \<noteq> ResOK \<Longrightarrow> free s' = free s" "res = ResFAIL \<Longrightarrow> addrs r \<inter> free s \<noteq> {}"
proof -
  from assms(1-3) have
    "case LandInsert L s r of
       (res, rangeReturn, s') \<Rightarrow>
         invar s' \<and>
         (if res = ResOK then free s' = free s \<union> addrs r else free s' = free s) \<and>
         (res = ResFAIL \<longrightarrow> addrs r \<inter> free s \<noteq> {})"
    by (simp add: land_insert_ok_def)
  with assms(4) have *: "invar s' \<and>
         (if res = ResOK then free s' = free s \<union> addrs r else free s' = free s) \<and>
         (res = ResFAIL \<longrightarrow> addrs r \<inter> free s \<noteq> {})"
    by simp
  from * show "invar s'" by simp
  from * show "res = ResOK \<Longrightarrow> free s' = free s \<union> addrs r" by simp
  from * show "res \<noteq> ResOK \<Longrightarrow> free s' = free s" by simp
  from * show "res = ResFAIL \<Longrightarrow> addrs r \<inter> free s \<noteq> {}" by simp
qed

lemma land_delete_okD:
  assumes "land_delete_ok L invar free" "invar s" "RangeCheck r"
    "LandDelete L s r = (res, oldRange, s')"
  shows "invar s'" "res = ResOK \<Longrightarrow> free s' = free s - addrs r"
    "res \<noteq> ResOK \<Longrightarrow> free s' = free s"
    "res \<noteq> ResFAIL \<Longrightarrow> RangesNest oldRange r \<and> addrs oldRange \<subseteq> free s"
proof -
  from assms(1-3) have
    "case LandDelete L s r of
       (res, oldRange, s') \<Rightarrow>
         invar s' \<and>
         (if res = ResOK then free s' = free s - addrs r else free s' = free s) \<and>
         (res \<noteq> ResFAIL \<longrightarrow> RangesNest oldRange r \<and> addrs oldRange \<subseteq> free s)"
    by (simp add: land_delete_ok_def)
  with assms(4) have *: "invar s' \<and>
         (if res = ResOK then free s' = free s - addrs r else free s' = free s) \<and>
         (res \<noteq> ResFAIL \<longrightarrow> RangesNest oldRange r \<and> addrs oldRange \<subseteq> free s)"
    by simp
  from * show "invar s'" by simp
  from * show "res = ResOK \<Longrightarrow> free s' = free s - addrs r" by simp
  from * show "res \<noteq> ResOK \<Longrightarrow> free s' = free s" by simp
  from * show "res \<noteq> ResFAIL \<Longrightarrow> RangesNest oldRange r \<and> addrs oldRange \<subseteq> free s" by simp
qed

lemma land_delete_whole_okD:
  assumes "land_delete_whole_ok L invar" "invar s" "RangeCheck r"
    "LandDelete L s r = (res, oldRange, s')" "res \<noteq> ResOK" "res \<noteq> ResFAIL"
    "LandDelete L s' oldRange = (res1, dummyRange, s'')"
  shows "res1 = ResOK" "dummyRange = oldRange"
proof -
  from assms(1-3) have
    "case LandDelete L s r of
       (res, oldRange, s') \<Rightarrow>
         res \<noteq> ResOK \<and> res \<noteq> ResFAIL \<longrightarrow>
           (case LandDelete L s' oldRange of
              (res1, dummyRange, s'') \<Rightarrow> res1 = ResOK \<and> dummyRange = oldRange)"
    by (simp add: land_delete_whole_ok_def)
  with assms(4-7) show "res1 = ResOK" "dummyRange = oldRange" by simp_all
qed

lemma land_insert_totalD:
  assumes "land_insert_total L invar free" "invar s" "base r < limit r" "addrs r \<inter> free s = {}"
    "LandInsert L s r = (res, rangeReturn, s')"
  shows "res = ResOK"
  using assms unfolding land_insert_total_def by (metis fst_conv)

lemma flush_okD:
  assumes "flush_ok flush invP freeP invS freeS" "invP p" "invS s"
    "flush p s = (flushed, p', s')"
  shows "invP p'" "invS s'" "freeP p' \<union> freeS s' = freeP p \<union> freeS s"
    "freeP p \<inter> freeS s = {} \<Longrightarrow> freeP p' \<inter> freeS s' = {}"
proof -
  from assms(1-3) have
    "case flush p s of
       (flushed, p', s') \<Rightarrow>
         invP p' \<and> invS s' \<and> freeP p' \<union> freeS s' = freeP p \<union> freeS s \<and>
         (freeP p \<inter> freeS s = {} \<longrightarrow> freeP p' \<inter> freeS s' = {})"
    by (simp add: flush_ok_def)
  with assms(4) have *: "invP p' \<and> invS s' \<and> freeP p' \<union> freeS s' = freeP p \<union> freeS s \<and>
         (freeP p \<inter> freeS s = {} \<longrightarrow> freeP p' \<inter> freeS s' = {})"
    by simp
  from * show "invP p'" by simp
  from * show "invS s'" by simp
  from * show "freeP p' \<union> freeS s' = freeP p \<union> freeS s" by simp
  from * show "freeP p \<inter> freeS s = {} \<Longrightarrow> freeP p' \<inter> freeS s' = {}" by simp
qed

lemma old_range_split:
  assumes "RangesNest oldRange rng" "RangeCheck rng"
  shows "addrs (RangeInit (RangeBase oldRange) (RangeBase rng)) \<union> addrs rng \<union>
           addrs (RangeInit (RangeLimit rng) (RangeLimit oldRange)) = addrs oldRange"
    "addrs (RangeInit (RangeBase oldRange) (RangeBase rng)) \<inter> addrs rng = {}"
    "addrs (RangeInit (RangeLimit rng) (RangeLimit oldRange)) \<inter> addrs rng = {}"
    "addrs (RangeInit (RangeBase oldRange) (RangeBase rng)) \<inter>
       addrs (RangeInit (RangeLimit rng) (RangeLimit oldRange)) = {}"
    "RangeCheck (RangeInit (RangeBase oldRange) (RangeBase rng))"
    "RangeCheck (RangeInit (RangeLimit rng) (RangeLimit oldRange))"
  using assms by (auto simp: addrs_def range_defs)

lemma fragment_step:
  fixes E :: "('p, 's, 'c, 'w::len) FailoverEnv"
  assumes insP: "land_insert_ok (primaryClass E) invP freeP"
    and insS: "land_insert_ok (secondaryClass E) invS freeS"
    and tot: "land_insert_total (secondaryClass E) invS freeS"
    and invs: "invP p" "invS s"
    and chk: "RangeCheck fragment"
    and apart: "addrs fragment \<inter> (freeP p \<union> freeS s) = {}"
  shows "\<exists>p' s'. failoverDeleteFragment E ResOK p s fragment = Some (ResOK, p', s') \<and>
           (p', s') = spec_reinsert E (p, s) fragment \<and> invP p' \<and> invS s' \<and>
           freeP p' \<union> freeS s' = freeP p \<union> freeS s \<union> addrs fragment \<and>
           (freeP p \<inter> freeS s = {} \<longrightarrow> freeP p' \<inter> freeS s' = {})"
proof (cases "RangeIsEmpty fragment")
  case True
  then have "addrs fragment = {}"
    by (auto simp: addrs_def RangeIsEmpty_def)
  with True invs show ?thesis
    by (simp add: failoverDeleteFragment_def spec_reinsert_def RangeIsEmpty_def)
next
  case False
  with chk have ne: "base fragment < limit fragment"
    by (simp add: RangeIsEmpty_def RangeCheck_def)
  obtain r1 d1 p' where ip: "LandInsert (primaryClass E) p fragment = (r1, d1, p')"
    by (cases "LandInsert (primaryClass E) p fragment") auto
  note effP = land_insert_okD [OF insP invs(1) ne ip]
  from apart effP(4) have notfail: "r1 \<noteq> ResFAIL" by blast
  show ?thesis
  proof (cases "r1 = ResOK")
    case True
    with False ip effP invs apart show ?thesis
      by (auto simp: failoverDeleteFragment_def spec_reinsert_def RangeIsEmpty_def)
  next
    case notok: False
    obtain r2 d2 s' where isec: "LandInsert (secondaryClass E) s fragment = (r2, d2, s')"
      by (cases "LandInsert (secondaryClass E) s fragment") auto
    from apart have "addrs fragment \<inter> freeS s = {}" by blast
    from land_insert_totalD [OF tot invs(2) ne this isec] have ok2: "r2 = ResOK" .
    note effS = land_insert_okD [OF insS invs(2) ne isec]
    from False notok notfail ip isec ok2 effP effS apart show ?thesis
      by (auto simp: failoverDeleteFragment_def spec_reinsert_def RangeIsEmpty_def)
  qed
qed

subsection \<open>Putting a fragment back into the primary is never refused\<close>

text \<open>
  C9. On the recovery path of \<open>failoverDelete\<close> the primary found the old range for
  \<open>rng\<close>, could not delete \<open>rng\<close>, and then deleted the whole old range. For a primary that
  keeps the Land contract, inserting a non-empty fragment of the old range into it then
  never returns \<open>ResFAIL\<close>, because the fragment overlaps nothing the primary still holds:
  not for the left fragment, and not for the right one, whether or not the left one was
  offered to the primary before. So the check \<open>AVER(res != ResFAIL)\<close> never stops the
  operation: putting a fragment back stops only when the secondary's insert fails.
\<close>

theorem failoverDelete_reinsert_not_FAIL:
  fixes E :: "('p, 's, 'c, 'w::len) FailoverEnv"
  assumes insP: "land_insert_ok (primaryClass E) invP freeP"
    and delP: "land_delete_ok (primaryClass E) invP freeP"
    and inv1: "invP p1"
    and chk: "RangeCheck rng"
    and del: "LandDelete (primaryClass E) p1 rng = (res, oldRange, p2)"
    and found: "res \<noteq> ResFAIL"
    and failed: "res \<noteq> ResOK"
    and whole: "LandDelete (primaryClass E) p2 oldRange = (ResOK, dummyRange, p3)"
  shows
    "(\<not> RangeIsEmpty (RangeInit (RangeBase oldRange) (RangeBase rng)) \<longrightarrow>
        fst (LandInsert (primaryClass E) p3 (RangeInit (RangeBase oldRange) (RangeBase rng)))
          \<noteq> ResFAIL) \<and>
     (\<not> RangeIsEmpty (RangeInit (RangeLimit rng) (RangeLimit oldRange)) \<longrightarrow>
        fst (LandInsert (primaryClass E) p3 (RangeInit (RangeLimit rng) (RangeLimit oldRange)))
          \<noteq> ResFAIL \<and>
        (\<not> RangeIsEmpty (RangeInit (RangeBase oldRange) (RangeBase rng)) \<longrightarrow>
           fst (LandInsert (primaryClass E)
                  (snd (snd (LandInsert (primaryClass E) p3
                               (RangeInit (RangeBase oldRange) (RangeBase rng)))))
                  (RangeInit (RangeLimit rng) (RangeLimit oldRange))) \<noteq> ResFAIL)) \<and>
     (failoverDeleteFragment E res0 p3 s
          (RangeInit (RangeBase oldRange) (RangeBase rng)) = None \<longrightarrow>
        fst (LandInsert (secondaryClass E) s (RangeInit (RangeBase oldRange) (RangeBase rng)))
          \<noteq> ResOK) \<and>
     (failoverDeleteFragment E res0 p3 s
          (RangeInit (RangeLimit rng) (RangeLimit oldRange)) = None \<longrightarrow>
        fst (LandInsert (secondaryClass E) s (RangeInit (RangeLimit rng) (RangeLimit oldRange)))
          \<noteq> ResOK) \<and>
     (\<not> RangeIsEmpty (RangeInit (RangeBase oldRange) (RangeBase rng)) \<and>
      failoverDeleteFragment E res0
          (snd (snd (LandInsert (primaryClass E) p3
                       (RangeInit (RangeBase oldRange) (RangeBase rng))))) s
          (RangeInit (RangeLimit rng) (RangeLimit oldRange)) = None \<longrightarrow>
        fst (LandInsert (secondaryClass E) s (RangeInit (RangeLimit rng) (RangeLimit oldRange)))
          \<noteq> ResOK)"
proof -
  let ?P = "primaryClass E"
  let ?left = "RangeInit (RangeBase oldRange) (RangeBase rng)"
  let ?right = "RangeInit (RangeLimit rng) (RangeLimit oldRange)"
  note d1 = land_delete_okD [OF delP inv1 chk del]
  from d1(4) found have nest: "RangesNest oldRange rng" by simp
  from d1(3) failed have free2: "freeP p2 = freeP p1" by simp
  from nest chk have chk_old: "RangeCheck oldRange"
    by (auto simp: range_defs)
  note d2 = land_delete_okD [OF delP d1(1) chk_old whole]
  from d2(2) have free3: "freeP p3 = freeP p2 - addrs oldRange" by simp
  note split = old_range_split [OF nest chk]
  have left_in: "addrs ?left \<subseteq> addrs oldRange" and right_in: "addrs ?right \<subseteq> addrs oldRange"
    using split(1) by blast+
  have left_free: "addrs ?left \<inter> freeP p3 = {}" and right_free: "addrs ?right \<inter> freeP p3 = {}"
    using left_in right_in free3 by blast+
  have ne: "base f < limit f" if "\<not> RangeIsEmpty f" "RangeCheck f" for f :: "'w range"
    using that by (simp add: RangeIsEmpty_def RangeCheck_def)
  have left: "fst (LandInsert ?P p3 ?left) \<noteq> ResFAIL" if "\<not> RangeIsEmpty ?left"
  proof -
    obtain r d p where i: "LandInsert ?P p3 ?left = (r, d, p)"
      by (cases "LandInsert ?P p3 ?left") auto
    from land_insert_okD(4) [OF insP d2(1) ne [OF that split(5)] i] left_free
    show ?thesis by (auto simp: i)
  qed
  have right: "fst (LandInsert ?P p3 ?right) \<noteq> ResFAIL" if "\<not> RangeIsEmpty ?right"
  proof -
    obtain r d p where i: "LandInsert ?P p3 ?right = (r, d, p)"
      by (cases "LandInsert ?P p3 ?right") auto
    from land_insert_okD(4) [OF insP d2(1) ne [OF that split(6)] i] right_free
    show ?thesis by (auto simp: i)
  qed
  have right_after: "fst (LandInsert ?P (snd (snd (LandInsert ?P p3 ?left))) ?right) \<noteq> ResFAIL"
    if "\<not> RangeIsEmpty ?right" "\<not> RangeIsEmpty ?left"
  proof -
    obtain r d p4 where i: "LandInsert ?P p3 ?left = (r, d, p4)"
      by (cases "LandInsert ?P p3 ?left") auto
    note e = land_insert_okD [OF insP d2(1) ne [OF that(2) split(5)] i]
    have "freeP p4 \<subseteq> freeP p3 \<union> addrs ?left"
      using e(2,3) by (cases "r = ResOK") auto
    with right_free split(4) have apart: "addrs ?right \<inter> freeP p4 = {}" by blast
    obtain r' d' p5 where i': "LandInsert ?P p4 ?right = (r', d', p5)"
      by (cases "LandInsert ?P p4 ?right") auto
    from land_insert_okD(4) [OF insP e(1) ne [OF that(1) split(6)] i'] apart
    show ?thesis by (auto simp: i i')
  qed
  have stops: "\<not> RangeIsEmpty f \<and> fst (LandInsert (secondaryClass E) s f) \<noteq> ResOK"
    if "failoverDeleteFragment E res0 p s f = None"
      "\<not> RangeIsEmpty f \<Longrightarrow> fst (LandInsert ?P p f) \<noteq> ResFAIL" for p f
    using that
    by (auto simp: failoverDeleteFragment_def split: if_splits prod.splits)
  have check_left: "fst (LandInsert (secondaryClass E) s ?left) \<noteq> ResOK"
    if "failoverDeleteFragment E res0 p3 s ?left = None"
    using stops [OF that left] by simp
  have check_right: "fst (LandInsert (secondaryClass E) s ?right) \<noteq> ResOK"
    if "failoverDeleteFragment E res0 p3 s ?right = None"
    using stops [OF that right] by simp
  have check_right_after: "fst (LandInsert (secondaryClass E) s ?right) \<noteq> ResOK"
    if "\<not> RangeIsEmpty ?left"
      "failoverDeleteFragment E res0 (snd (snd (LandInsert ?P p3 ?left))) s ?right = None"
    using stops [OF that(2)] right_after [OF _ that(1)] by simp
  from left right right_after check_left check_right check_right_after
  show ?thesis by blast
qed

theorem failoverDelete_reinsert_not_FAIL_witness:
  "land_insert_ok (primaryClass (env64 True (Some 1))) blockInv blockFree \<and>
   land_delete_ok (primaryClass (env64 True (Some 1))) blockInv blockFree \<and>
   blockInv [Rg 0 100] \<and> RangeCheck (Rg 40 60) \<and>
   LandDelete (primaryClass (env64 True (Some 1))) [Rg 0 100] (Rg 40 60) =
     (ResALLOC_FAILURE, Rg 0 100, [Rg 0 100]) \<and>
   LandDelete (primaryClass (env64 True (Some 1))) [Rg 0 100] (Rg 0 100) =
     (ResOK, Rg 0 100, []) \<and>
   fst (LandInsert (primaryClass (env64 True (Some 1))) [] (Rg 0 40)) \<noteq> ResFAIL \<and>
   fst (LandInsert (primaryClass (env64 True (Some 1))) [] (Rg 60 100)) \<noteq> ResFAIL \<and>
   LandInsert (primaryClass (env64 True (Some 1))) [] (Rg 0 40) = (ResOK, Rg 0 40, [Rg 0 40]) \<and>
   fst (LandInsert (primaryClass (env64 True (Some 1))) [Rg 0 40] (Rg 60 100)) \<noteq> ResFAIL"
proof -
  let ?E = "env64 True (Some 1)"
  have i: "land_insert_ok (primaryClass ?E) blockInv blockFree"
    by (simp add: blockEnv_def blockLand_insert_ok)
  have d: "land_delete_ok (primaryClass ?E) blockInv blockFree"
    by (simp add: blockEnv_def blockLand_delete_ok)
  have v: "blockInv [Rg 0 100]"
    by (simp add: blockInv_def range_defs)
  have c: "RangeCheck (Rg 40 60)"
    by (simp add: range_defs)
  have d1: "LandDelete (primaryClass ?E) [Rg 0 100] (Rg 40 60) =
              (ResALLOC_FAILURE, Rg 0 100, [Rg 0 100])"
    by (simp add: block_defs land_defs range_defs)
  have d2: "LandDelete (primaryClass ?E) [Rg 0 100] (Rg 0 100) = (ResOK, Rg 0 100, [])"
    by (simp add: block_defs land_defs range_defs)
  have l: "LandInsert (primaryClass ?E) [] (Rg 0 40) = (ResOK, Rg 0 40, [Rg 0 40])"
    by (simp add: block_defs land_defs range_defs)
  from failoverDelete_reinsert_not_FAIL [OF i d v c d1 _ _ d2, of res0 s] i d v c d1 d2 l
  show ?thesis
    by (simp add: range_defs)
qed

subsection \<open>The recovery removes exactly the range\<close>

text \<open>The lands of blocks of the examples are children a Failover can rely on.\<close>

lemma blockEnv_children_ok:
  "failover_children_ok (blockEnv crit capP None) blockInv blockFree blockInv blockFree"
  by (simp add: failover_children_ok_def blockEnv_def blockLand_insert_ok blockLand_delete_ok
        blockLand_delete_whole_ok blockLand_insert_total blockFlush_ok)

text \<open>
  C1. Let the children keep the Land contract and hold disjoint sets of addresses. When,
  after the flush, the primary's delete of \<open>rng\<close> reports the old range and returns an
  allocation failure, \<open>failoverDelete\<close> returns \<open>ResOK\<close> and that old range; the old range
  was held by the Failover and contains \<open>rng\<close>; afterwards the Failover holds what it held
  before except the addresses of \<open>rng\<close>, and its children are again disjoint. The children
  are what the spec's words give: the whole old range deleted from the primary, then the
  fragment below \<open>rng\<close> and the fragment above it each put back only when not empty, into
  the primary or, when the primary fails, into the secondary.
\<close>

theorem failoverDelete_recovers:
  fixes E :: "('p, 's, 'c, 'w::len) FailoverEnv"
  assumes ok: "failover_children_ok E invP freeP invS freeS"
    and invs: "invP (primary fo)" "invS (secondary fo)"
    and apart: "freeP (primary fo) \<inter> freeS (secondary fo) = {}"
    and chk: "RangeCheck rng"
    and flush: "LandFlush E (primary fo) (secondary fo) = (flushed, p1, s1)"
    and del: "LandDelete (primaryClass E) p1 rng = (res, oldRange, p2)"
    and failed: "ResIsAllocFailure res"
    and whole: "LandDelete (primaryClass E) p2 oldRange = (res1, dummyRange, p3)"
  shows
    "\<exists>fo'. failoverDelete E fo rng = Some (ResOK, Some oldRange, fo') \<and>
       (primary fo', secondary fo') =
         spec_reinsert E
           (spec_reinsert E (p3, s1) (RangeInit (RangeBase oldRange) (RangeBase rng)))
           (RangeInit (RangeLimit rng) (RangeLimit oldRange)) \<and>
       RangesNest oldRange rng \<and>
       addrs oldRange \<subseteq> failoverFree freeP freeS fo \<and>
       failoverFree freeP freeS fo' = failoverFree freeP freeS fo - addrs rng \<and>
       freeP (primary fo') \<inter> freeS (secondary fo') = {} \<and>
       invP (primary fo') \<and> invS (secondary fo')"
proof -
  let ?P = "primaryClass E" and ?S = "secondaryClass E"
  let ?left = "RangeInit (RangeBase oldRange) (RangeBase rng)"
  let ?right = "RangeInit (RangeLimit rng) (RangeLimit oldRange)"
  from ok have insP: "land_insert_ok ?P invP freeP" and delP: "land_delete_ok ?P invP freeP"
    and wholeP: "land_delete_whole_ok ?P invP" and insS: "land_insert_ok ?S invS freeS"
    and totS: "land_insert_total ?S invS freeS"
    and fl: "flush_ok (LandFlush E) invP freeP invS freeS"
    by (simp_all add: failover_children_ok_def)
  txt \<open>The flush moves addresses between the children.\<close>
  note f = flush_okD [OF fl invs flush]
  from f(4) apart have apart1: "freeP p1 \<inter> freeS s1 = {}" by simp
  from f(3) have union1: "freeP p1 \<union> freeS s1 = failoverFree freeP freeS fo"
    by (simp add: failoverFree_def)
  txt \<open>The primary finds the old range and leaves its contents as they were.\<close>
  from failed have codes: "res \<noteq> ResOK" "res \<noteq> ResFAIL"
    by (auto simp: ResIsAllocFailure_def)
  note d1 = land_delete_okD [OF delP f(1) chk del]
  from d1(4) codes have nest: "RangesNest oldRange rng" and old_in: "addrs oldRange \<subseteq> freeP p1"
    by simp_all
  from d1(3) codes have free2: "freeP p2 = freeP p1" by simp
  from nest chk have chk_old: "RangeCheck oldRange"
    by (auto simp: range_defs)
  txt \<open>Deleting the whole of the old range succeeds.\<close>
  from land_delete_whole_okD [OF wholeP f(1) chk del codes whole]
  have res1: "res1 = ResOK" and dummy: "dummyRange = oldRange" by simp_all
  note d2 = land_delete_okD [OF delP d1(1) chk_old whole]
  from d2(2) res1 free2 have free3: "freeP p3 = freeP p1 - addrs oldRange" by simp
  note split = old_range_split [OF nest chk]
  txt \<open>The left fragment is put back.\<close>
  have left_apart: "addrs ?left \<inter> (freeP p3 \<union> freeS s1) = {}"
    using split(1) free3 old_in apart1 by blast
  from fragment_step [OF insP insS totS d2(1) f(2) split(5) left_apart]
  obtain p4 s2 where
    stepL: "failoverDeleteFragment E ResOK p3 s1 ?left = Some (ResOK, p4, s2)"
    and specL: "(p4, s2) = spec_reinsert E (p3, s1) ?left"
    and inv4: "invP p4" "invS s2"
    and free4: "freeP p4 \<union> freeS s2 = freeP p3 \<union> freeS s1 \<union> addrs ?left"
    and apart4: "freeP p3 \<inter> freeS s1 = {} \<longrightarrow> freeP p4 \<inter> freeS s2 = {}"
    by blast
  txt \<open>The right fragment is put back.\<close>
  have right_apart: "addrs ?right \<inter> (freeP p4 \<union> freeS s2) = {}"
    using split(1,4) free3 free4 old_in apart1 by blast
  from fragment_step [OF insP insS totS inv4 split(6) right_apart]
  obtain p5 s3 where
    stepR: "failoverDeleteFragment E ResOK p4 s2 ?right = Some (ResOK, p5, s3)"
    and specR: "(p5, s3) = spec_reinsert E (p4, s2) ?right"
    and inv5: "invP p5" "invS s3"
    and free5: "freeP p5 \<union> freeS s3 = freeP p4 \<union> freeS s2 \<union> addrs ?right"
    and apart5: "freeP p4 \<inter> freeS s2 = {} \<longrightarrow> freeP p5 \<inter> freeS s3 = {}"
    by blast
  have recover: "failoverDeleteRecover E res oldRange rng p2 s1 = Some (ResOK, p5, s3)"
    using failed whole res1 dummy stepL stepR
    by (simp add: failoverDeleteRecover_def RangesEqual_def)
  have result: "failoverDelete E fo rng =
                  Some (ResOK, Some oldRange, \<lparr>primary = p5, secondary = s3\<rparr>)"
    using chk flush del codes recover nest
    by (simp add: failoverDelete_def)
  have "freeP p3 \<inter> freeS s1 = {}"
    using free3 apart1 by blast
  with apart4 apart5 have apart': "freeP p5 \<inter> freeS s3 = {}" by simp
  have "freeP p5 \<union> freeS s3 = (freeP p1 - addrs oldRange) \<union> freeS s1 \<union> addrs ?left \<union> addrs ?right"
    using free5 free4 free3 by simp
  also have "\<dots> = (freeP p1 \<union> freeS s1) - addrs rng"
    using split(1,2,3) old_in apart1 by blast
  finally have free': "freeP p5 \<union> freeS s3 = failoverFree freeP freeS fo - addrs rng"
    using union1 by simp
  have old_free: "addrs oldRange \<subseteq> failoverFree freeP freeS fo"
    using old_in union1 by blast
  from result specL specR nest old_free free' apart' inv5 show ?thesis
    by (intro exI [of _ "\<lparr>primary = p5, secondary = s3\<rparr>"]) (simp add: failoverFree_def)
qed

theorem failoverDelete_recovers_witness:
  "failover_children_ok (env64 True (Some 1)) blockInv blockFree blockInv blockFree \<and>
   blockInv [Rg 0 100] \<and> blockInv ([] :: 64 range list) \<and>
   blockFree [Rg 0 100] \<inter> blockFree [] = {} \<and>
   RangeCheck (Rg 40 60) \<and>
   LandFlush (env64 True (Some 1)) [Rg 0 100] [] = (True, [Rg 0 100], []) \<and>
   LandDelete (primaryClass (env64 True (Some 1))) [Rg 0 100] (Rg 40 60) =
     (ResALLOC_FAILURE, Rg 0 100, [Rg 0 100]) \<and>
   ResIsAllocFailure ResALLOC_FAILURE \<and>
   LandDelete (primaryClass (env64 True (Some 1))) [Rg 0 100] (Rg 0 100) =
     (ResOK, Rg 0 100, []) \<and>
   failoverDelete (env64 True (Some 1)) \<lparr>primary = [Rg 0 100], secondary = []\<rparr> (Rg 40 60) =
     Some (ResOK, Some (Rg 0 100), \<lparr>primary = [Rg 0 40], secondary = [Rg 60 100]\<rparr>) \<and>
   failoverFree blockFree blockFree \<lparr>primary = [Rg 0 40], secondary = [Rg 60 100]\<rparr> =
     failoverFree blockFree blockFree \<lparr>primary = [Rg 0 100], secondary = []\<rparr> - addrs (Rg 40 60)"
proof -
  let ?E = "env64 True (Some 1)"
  let ?fo = "\<lparr>primary = [Rg 0 100], secondary = [] :: 64 range list\<rparr>"
  have ok: "failover_children_ok ?E blockInv blockFree blockInv blockFree"
    by (rule blockEnv_children_ok)
  have invs: "blockInv (primary ?fo)" "blockInv (secondary ?fo)"
    by (simp_all add: blockInv_def range_defs)
  have apart: "blockFree (primary ?fo) \<inter> blockFree (secondary ?fo) = {}"
    by (simp add: blockFree_def)
  have chk: "RangeCheck (Rg 40 60)"
    by (simp add: range_defs)
  have flush: "LandFlush ?E (primary ?fo) (secondary ?fo) = (True, [Rg 0 100], [])"
    by (simp add: blockEnv_def)
  have del: "LandDelete (primaryClass ?E) [Rg 0 100] (Rg 40 60) =
               (ResALLOC_FAILURE, Rg 0 100, [Rg 0 100])"
    by (simp add: block_defs land_defs range_defs)
  have failed: "ResIsAllocFailure ResALLOC_FAILURE"
    by (simp add: ResIsAllocFailure_def)
  have whole: "LandDelete (primaryClass ?E) [Rg 0 100] (Rg 0 100) = (ResOK, Rg 0 100, [])"
    by (simp add: block_defs land_defs range_defs)
  have run: "failoverDelete ?E ?fo (Rg 40 60) =
               Some (ResOK, Some (Rg 0 100), \<lparr>primary = [Rg 0 40], secondary = [Rg 60 100]\<rparr>)"
    by (simp add: failoverDelete_def failoverDeleteRecover_def failoverDeleteFragment_def
          ResIsAllocFailure_def block_defs land_defs range_defs)
  from failoverDelete_recovers [OF ok invs apart chk flush del failed whole]
  obtain fo' where
    "failoverDelete ?E ?fo (Rg 40 60) = Some (ResOK, Some (Rg 0 100), fo')"
    "failoverFree blockFree blockFree fo' =
       failoverFree blockFree blockFree ?fo - addrs (Rg 40 60)"
    by blast
  with run have free:
    "failoverFree blockFree blockFree \<lparr>primary = [Rg 0 40], secondary = [Rg 60 100]\<rparr> =
       failoverFree blockFree blockFree ?fo - addrs (Rg 40 60)"
    by simp
  from ok invs apart chk flush del failed whole run free show ?thesis
    by simp
qed

end
